theory Spec2Isabelle
  imports Complex_Main "HOL-Library.Log_Nat" "HOL-Library.Sublist"
begin

section \<open>Python values\<close>

text \<open>
  The program is \<^verbatim>\<open>src/conversion.py\<close>. It reads a table with pandas and walks over its
  rows; a cell of a row is a Python value: \<^verbatim>\<open>None\<close> (what \<^verbatim>\<open>row.get(col)\<close> gives for
  a column the table does not have), a string, an integer, a float or a boolean.

  A Python \<^verbatim>\<open>str\<close> is modelled as a HOL \<^typ>\<open>string\<close>: a list of characters with code
  points 0..255 (the Latin-1 range of Unicode). The character classes below are Python's
  on that range.

  A float is used by the program through \<^verbatim>\<open>str(v)\<close>, \<^verbatim>\<open>pd.isna(v)\<close> and
  \<^verbatim>\<open>int(float(v))\<close> only. The model carries its numeric value (a rational, an infinity
  or not-a-number) together with the text Python prints for it (the shortest decimal that
  reads back as the same float, which the embedding does not compute).
\<close>

datatype fval = Finite rat | Infinity | NotANumber

datatype pyval =
    PNone
  | PStr string
  | PInt int
  | PFloat fval string
  | PBool bool

datatype error = ValueError | OverflowError | TypeError | KeyError

text \<open>\<^verbatim>\<open>pd.isna(v)\<close> on a scalar: true for \<^verbatim>\<open>None\<close> and for the float NaN.\<close>

fun pd_isna :: "pyval \<Rightarrow> bool" where
  "pd_isna PNone = True"
| "pd_isna (PFloat f r) = (f = NotANumber)"
| "pd_isna v = False"

subsection \<open>Printing\<close>

definition dq :: char where
  "dq = CHR 0x22"

definition backslash :: char where
  "backslash = CHR 0x5C"

definition newline :: char where
  "newline = CHR 0x0A"

definition carriage_return :: char where
  "carriage_return = CHR 0x0D"

fun show_nat :: "nat \<Rightarrow> string" where
  "show_nat n =
     (if n < 10 then [char_of (48 + n)]
      else show_nat (n div 10) @ [char_of (48 + n mod 10)])"

declare show_nat.simps [simp del]

definition show_int :: "int \<Rightarrow> string" where
  "show_int i = (if i < 0 then CHR ''-'' # show_nat (nat (- i)) else show_nat (nat i))"

text \<open>\<^verbatim>\<open>str(v)\<close>, which is also what an f-string writes for \<^verbatim>\<open>{v}\<close>.\<close>

fun py_str :: "pyval \<Rightarrow> string" where
  "py_str PNone = ''None''"
| "py_str (PStr s) = s"
| "py_str (PInt i) = show_int i"
| "py_str (PFloat f r) = r"
| "py_str (PBool b) = (if b then ''True'' else ''False'')"

text \<open>What an f-string writes for a value that may be \<^verbatim>\<open>None\<close>.\<close>

fun fmt_opt :: "string option \<Rightarrow> string" where
  "fmt_opt None = ''None''"
| "fmt_opt (Some s) = s"

text \<open>Truthiness of an optional string: \<^verbatim>\<open>None\<close> and \<^verbatim>\<open>""\<close> are false.\<close>

fun truthy :: "string option \<Rightarrow> bool" where
  "truthy None = False"
| "truthy (Some s) = (s \<noteq> [])"

subsection \<open>Character classes and string methods\<close>

text \<open>\<^verbatim>\<open>str.isspace\<close> and the regular expression class \<^verbatim>\<open>\s\<close>.\<close>

definition is_space :: "char \<Rightarrow> bool" where
  "is_space c =
     (let n = (of_char c :: nat)
      in (9 \<le> n \<and> n \<le> 13) \<or> (28 \<le> n \<and> n \<le> 32) \<or> n = 133 \<or> n = 160)"

text \<open>Letters and digits: \<^verbatim>\<open>str.isalnum\<close>.\<close>

definition is_alnum :: "char \<Rightarrow> bool" where
  "is_alnum c =
     (let n = (of_char c :: nat)
      in (48 \<le> n \<and> n \<le> 57) \<or> (65 \<le> n \<and> n \<le> 90) \<or> (97 \<le> n \<and> n \<le> 122)
         \<or> n = 170 \<or> n = 178 \<or> n = 179 \<or> n = 181 \<or> n = 185 \<or> n = 186
         \<or> (188 \<le> n \<and> n \<le> 190) \<or> (192 \<le> n \<and> n \<le> 214)
         \<or> (216 \<le> n \<and> n \<le> 246) \<or> (248 \<le> n \<and> n \<le> 255))"

text \<open>The regular expression class \<^verbatim>\<open>\w\<close>.\<close>

definition is_word :: "char \<Rightarrow> bool" where
  "is_word c = (is_alnum c \<or> c = CHR ''_'')"

text \<open>The regular expression class \<^verbatim>\<open>\d\<close>, on the same range.\<close>

definition is_digit :: "char \<Rightarrow> bool" where
  "is_digit c = (let n = (of_char c :: nat) in 48 \<le> n \<and> n \<le> 57)"

text \<open>\<^verbatim>\<open>s.strip()\<close>.\<close>

definition strip :: "string \<Rightarrow> string" where
  "strip s = rev (dropWhile is_space (rev (dropWhile is_space s)))"

text \<open>\<^verbatim>\<open>s.replace(old, new)\<close> for a one-character \<^verbatim>\<open>old\<close>.\<close>

definition replace_char :: "char \<Rightarrow> string \<Rightarrow> string \<Rightarrow> string" where
  "replace_char old new s = concat (map (\<lambda>c. if c = old then new else [c]) s)"

text \<open>\<^verbatim>\<open>s.lower()\<close>, character by character.\<close>

definition lower_char :: "char \<Rightarrow> char" where
  "lower_char c =
     (let n = (of_char c :: nat)
      in if (65 \<le> n \<and> n \<le> 90) \<or> (192 \<le> n \<and> n \<le> 214) \<or> (216 \<le> n \<and> n \<le> 222)
         then char_of (n + 32) else c)"

definition lower :: "string \<Rightarrow> string" where
  "lower s = map lower_char s"

subsection \<open>Regular expression substitutions\<close>

text \<open>
  \<^verbatim>\<open>re.sub(r'[^\w\s-]', '', s)\<close> deletes every character the class matches: those that
  are neither a word character, nor whitespace, nor a hyphen.
\<close>

definition re_sub_other :: "string \<Rightarrow> string" where
  "re_sub_other s = filter (\<lambda>c. \<not> (\<not> is_word c \<and> \<not> is_space c \<and> c \<noteq> CHR ''-'')) s"

text \<open>
  \<^verbatim>\<open>re.sub(r'\s+', '_', s)\<close> scans from the left; at a whitespace character the
  greedy match takes the whole run and one underscore replaces it.
\<close>

function re_sub_spaces :: "string \<Rightarrow> string" where
  "re_sub_spaces [] = []"
| "re_sub_spaces (c # cs) =
     (if is_space c then CHR ''_'' # re_sub_spaces (dropWhile is_space cs)
      else c # re_sub_spaces cs)"
  by pat_completeness auto
termination
  by (relation "measure length") (auto simp: length_dropWhile_le less_Suc_eq_le)

subsection \<open>\<^verbatim>\<open>urllib.parse.quote\<close>\<close>

text \<open>
  \<^verbatim>\<open>quote(s)\<close> encodes the text as UTF-8 and writes every byte that is not an ASCII
  letter, a digit or one of \<^verbatim>\<open>_.-~/\<close> as \<^verbatim>\<open>%XX\<close> in upper-case hexadecimal.
\<close>

definition utf8_encode :: "char \<Rightarrow> nat list" where
  "utf8_encode c =
     (let n = (of_char c :: nat)
      in if n < 128 then [n] else [192 + n div 64, 128 + n mod 64])"

definition always_safe :: "nat \<Rightarrow> bool" where
  "always_safe b =
     ((48 \<le> b \<and> b \<le> 57) \<or> (65 \<le> b \<and> b \<le> 90) \<or> (97 \<le> b \<and> b \<le> 122)
      \<or> b = 95 \<or> b = 46 \<or> b = 45 \<or> b = 126 \<or> b = 47)"

definition hex_digit :: "nat \<Rightarrow> char" where
  "hex_digit d = (if d < 10 then char_of (48 + d) else char_of (55 + d))"

definition quote_byte :: "nat \<Rightarrow> string" where
  "quote_byte b =
     (if always_safe b then [char_of b]
      else [CHR ''%'', hex_digit (b div 16), hex_digit (b mod 16)])"

definition quote :: "string \<Rightarrow> string" where
  "quote s = concat (map quote_byte (concat (map utf8_encode s)))"

section \<open>The cleaning functions\<close>

text \<open>
  \<^verbatim>\<open>
  def clean_uri_string(text):
      if pd.isna(text) or text == "":
          return None
      cleaned = re.sub(r'[^\w\s-]', '', str(text))
      cleaned = re.sub(r'\s+', '_', cleaned.strip())
      return quote(cleaned)
  \<close>
\<close>

definition clean_uri_string :: "pyval \<Rightarrow> string option" where
  "clean_uri_string text =
     (if pd_isna text \<or> text = PStr [] then None
      else Some (quote (re_sub_spaces (strip (re_sub_other (py_str text))))))"

text \<open>
  \<^verbatim>\<open>
  def clean_literal_string(text):
      if pd.isna(text) or text == "":
          return None
      return str(text).replace('"', '\\"').replace('\n', '\\n').replace('\r', '\\r')
  \<close>
\<close>

definition clean_literal_string :: "pyval \<Rightarrow> string option" where
  "clean_literal_string text =
     (if pd_isna text \<or> text = PStr [] then None
      else Some (replace_char carriage_return [backslash, CHR ''r'']
                  (replace_char newline [backslash, CHR ''n'']
                    (replace_char dq [backslash, dq] (py_str text)))))"

section \<open>The field parser\<close>

text \<open>\<^verbatim>\<open>'||' in s\<close>.\<close>

fun contains_bars :: "string \<Rightarrow> bool" where
  "contains_bars (a # b # rest) =
     ((a = CHR ''|'' \<and> b = CHR ''|'') \<or> contains_bars (b # rest))"
| "contains_bars s = False"

text \<open>
  \<^verbatim>\<open>s.split('||')\<close>: the text is cut at each occurrence of the delimiter found scanning
  from the left, an occurrence starting only after the one before it has ended.
\<close>

fun split_bars :: "string \<Rightarrow> string list" where
  "split_bars (a # b # rest) =
     (if a = CHR ''|'' \<and> b = CHR ''|'' then [] # split_bars rest
      else (case split_bars (b # rest) of
              [] \<Rightarrow> [[a]]
            | seg # segs \<Rightarrow> (a # seg) # segs))"
| "split_bars s = [s]"

text \<open>A Python \<^verbatim>\<open>dict\<close> with string keys and values, as an association list.\<close>

type_synonym pydict = "(string \<times> string) list"

text \<open>
  \<^verbatim>\<open>
  def parse_delimited_field(field_value, debug=False):
      if pd.isna(field_value) or field_value == "" or str(field_value).strip() == "":
          return []
      try:
          field_str = str(field_value).strip()
          if '||' in field_str:
              values = [v.strip() for v in field_str.split('||') if v.strip()]
          else:
              values = [field_str] if field_str else []
          result = [{'name': value} for value in values if value]
          return result
      except Exception as e:
          return []
  \<close>
  The \<^verbatim>\<open>debug\<close> branches only print. Nothing in the \<^verbatim>\<open>try\<close> block raises.
\<close>

definition parse_delimited_field :: "pyval \<Rightarrow> pydict list" where
  "parse_delimited_field field_value =
     (if pd_isna field_value \<or> field_value = PStr [] \<or> strip (py_str field_value) = [] then []
      else
        let field_str = strip (py_str field_value);
            values =
              (if contains_bars field_str
               then map strip (filter (\<lambda>v. strip v \<noteq> []) (split_bars field_str))
               else if field_str \<noteq> [] then [field_str] else [])
        in map (\<lambda>value. [(''name'', value)]) (filter (\<lambda>value. value \<noteq> []) values))"

text \<open>
  The callers' loop \<^verbatim>\<open>for p in parsed: if isinstance(p, dict) and 'name' in p:\<close> reads
  \<^verbatim>\<open>p['name']\<close> of every parsed entry that has the key.
\<close>

definition names_of :: "pydict list \<Rightarrow> string list" where
  "names_of parsed = List.map_filter (\<lambda>p. map_of p ''name'') parsed"

section \<open>The date formatter\<close>

text \<open>
  \<^verbatim>\<open>datetime.strptime(s, '%Y-%m-%d')\<close> matches the text against the regular expression
  \<^verbatim>\<open>(?P<Y>\d\d\d\d)-(?P<m>1[0-2]|0[1-9]|[1-9])-(?P<d>3[0-1]|[1-2]\d|0[1-9]|[1-9]| [1-9])\<close>,
  raises \<^verbatim>\<open>ValueError\<close> when it does not match or when text remains after the match, and
  then builds the date, which raises \<^verbatim>\<open>ValueError\<close> for year 0 and for a day the month
  does not have.

  In a text of the model's alphabet (code points 0..255) \<^verbatim>\<open>\d\<close> matches the ten digits
  \<^verbatim>\<open>0\<close> to \<^verbatim>\<open>9\<close> and no other character. Python's \<^verbatim>\<open>\d\<close> also matches the decimal
  digits of other scripts, all of them beyond code point 255: a text that holds one is not a
  text of the model, and nothing below speaks of it.
\<close>

definition digit_val :: "char \<Rightarrow> nat" where
  "digit_val c = of_char c - 48"

text \<open>The group \<^verbatim>\<open>Y\<close>: the year and the rest of the text.\<close>

fun match_year :: "string \<Rightarrow> (nat \<times> string) option" where
  "match_year (a # b # c # d # rest) =
     (if is_digit a \<and> is_digit b \<and> is_digit c \<and> is_digit d
      then Some (1000 * digit_val a + 100 * digit_val b + 10 * digit_val c + digit_val d, rest)
      else None)"
| "match_year s = None"

fun match_hyphen :: "string \<Rightarrow> string option" where
  "match_hyphen (c # rest) = (if c = CHR ''-'' then Some rest else None)"
| "match_hyphen [] = None"

text \<open>
  The group \<^verbatim>\<open>m\<close>: every way the alternatives match a prefix of the text, in the
  order the matcher tries them.
\<close>

definition month_alt1 :: "string \<Rightarrow> (nat \<times> string) list" where
  "month_alt1 s =
     (case s of
        a # b # rest \<Rightarrow>
          (if a = CHR ''1'' \<and> (b = CHR ''0'' \<or> b = CHR ''1'' \<or> b = CHR ''2'')
           then [(10 + digit_val b, rest)] else [])
      | _ \<Rightarrow> [])"

definition month_alt2 :: "string \<Rightarrow> (nat \<times> string) list" where
  "month_alt2 s =
     (case s of
        a # b # rest \<Rightarrow>
          (if a = CHR ''0'' \<and> is_digit b \<and> b \<noteq> CHR ''0'' then [(digit_val b, rest)] else [])
      | _ \<Rightarrow> [])"

definition month_alt3 :: "string \<Rightarrow> (nat \<times> string) list" where
  "month_alt3 s =
     (case s of
        a # rest \<Rightarrow> (if is_digit a \<and> a \<noteq> CHR ''0'' then [(digit_val a, rest)] else [])
      | _ \<Rightarrow> [])"

definition match_month :: "string \<Rightarrow> (nat \<times> string) list" where
  "match_month s = month_alt1 s @ month_alt2 s @ month_alt3 s"

text \<open>The group \<^verbatim>\<open>d\<close>, likewise.\<close>

definition day_alt1 :: "string \<Rightarrow> (nat \<times> string) list" where
  "day_alt1 s =
     (case s of
        a # b # rest \<Rightarrow>
          (if a = CHR ''3'' \<and> (b = CHR ''0'' \<or> b = CHR ''1'')
           then [(30 + digit_val b, rest)] else [])
      | _ \<Rightarrow> [])"

definition day_alt2 :: "string \<Rightarrow> (nat \<times> string) list" where
  "day_alt2 s =
     (case s of
        a # b # rest \<Rightarrow>
          (if (a = CHR ''1'' \<or> a = CHR ''2'') \<and> is_digit b
           then [(10 * digit_val a + digit_val b, rest)] else [])
      | _ \<Rightarrow> [])"

definition day_alt3 :: "string \<Rightarrow> (nat \<times> string) list" where
  "day_alt3 s =
     (case s of
        a # b # rest \<Rightarrow>
          (if a = CHR ''0'' \<and> is_digit b \<and> b \<noteq> CHR ''0'' then [(digit_val b, rest)] else [])
      | _ \<Rightarrow> [])"

definition day_alt4 :: "string \<Rightarrow> (nat \<times> string) list" where
  "day_alt4 s =
     (case s of
        a # rest \<Rightarrow> (if is_digit a \<and> a \<noteq> CHR ''0'' then [(digit_val a, rest)] else [])
      | _ \<Rightarrow> [])"

definition day_alt5 :: "string \<Rightarrow> (nat \<times> string) list" where
  "day_alt5 s =
     (case s of
        a # b # rest \<Rightarrow>
          (if a = CHR '' '' \<and> is_digit b \<and> b \<noteq> CHR ''0'' then [(digit_val b, rest)] else [])
      | _ \<Rightarrow> [])"

definition match_day :: "string \<Rightarrow> (nat \<times> string) list" where
  "match_day s = day_alt1 s @ day_alt2 s @ day_alt3 s @ day_alt4 s @ day_alt5 s"

text \<open>
  The whole pattern. The matcher backtracks into the month only when what follows it does
  not match; the first match found is the result: year, month, day and the text left.
\<close>

definition match_ymd :: "string \<Rightarrow> (nat \<times> nat \<times> nat \<times> string) option" where
  "match_ymd s =
     (case match_year s of
        None \<Rightarrow> None
      | Some (y, s1) \<Rightarrow>
          (case match_hyphen s1 of
             None \<Rightarrow> None
           | Some s2 \<Rightarrow>
               (case concat (map (\<lambda>(m, s3).
                        case match_hyphen s3 of
                          None \<Rightarrow> []
                        | Some s4 \<Rightarrow> map (\<lambda>(d, s5). (y, m, d, s5)) (match_day s4))
                      (match_month s2)) of
                  [] \<Rightarrow> None
                | found # _ \<Rightarrow> Some found)))"

definition leap_year :: "nat \<Rightarrow> bool" where
  "leap_year y = (y mod 4 = 0 \<and> (y mod 100 \<noteq> 0 \<or> y mod 400 = 0))"

definition days_in_month :: "nat \<Rightarrow> nat \<Rightarrow> nat" where
  "days_in_month y m =
     (if m = 2 then (if leap_year y then 29 else 28)
      else if m = 4 \<or> m = 6 \<or> m = 9 \<or> m = 11 then 30 else 31)"

text \<open>What the \<^verbatim>\<open>datetime\<close> constructor accepts.\<close>

definition valid_date :: "nat \<Rightarrow> nat \<Rightarrow> nat \<Rightarrow> bool" where
  "valid_date y m d = (1 \<le> y \<and> 1 \<le> m \<and> m \<le> 12 \<and> 1 \<le> d \<and> d \<le> days_in_month y m)"

definition strptime_ymd :: "string \<Rightarrow> error + (nat \<times> nat \<times> nat)" where
  "strptime_ymd s =
     (case match_ymd s of
        None \<Rightarrow> Inl ValueError
      | Some (y, m, d, rest) \<Rightarrow>
          if rest \<noteq> [] then Inl ValueError
          else if valid_date y m d then Inr (y, m, d)
          else Inl ValueError)"

text \<open>
  \<^verbatim>\<open>
  def format_date(date_str):
      if pd.isna(date_str) or date_str == "":
          return None
      try:
          datetime.strptime(str(date_str), '%Y-%m-%d')
          return str(date_str)
      except ValueError:
          return None
  \<close>
\<close>

definition format_date :: "pyval \<Rightarrow> string option" where
  "format_date date_str =
     (if pd_isna date_str \<or> date_str = PStr [] then None
      else (case strptime_ymd (py_str date_str) of
              Inr parsed \<Rightarrow> Some (py_str date_str)
            | Inl e \<Rightarrow> None))"

section \<open>Rows and the loader\<close>

text \<open>
  A row of the table: the cell of every column the table has. \<^verbatim>\<open>row.get(col, default)\<close>
  gives the default for a column the table lacks, \<^verbatim>\<open>row.get(col)\<close> gives
  \<^verbatim>\<open>None\<close> there, and \<^verbatim>\<open>row[col]\<close> raises \<^verbatim>\<open>KeyError\<close>.
\<close>

type_synonym row = "string \<rightharpoonup> pyval"

definition row_get :: "row \<Rightarrow> string \<Rightarrow> pyval \<Rightarrow> pyval" where
  "row_get r col dflt = (case r col of None \<Rightarrow> dflt | Some v \<Rightarrow> v)"

definition row_item :: "row \<Rightarrow> string \<Rightarrow> error + pyval" where
  "row_item r col = (case r col of None \<Rightarrow> Inl KeyError | Some v \<Rightarrow> Inr v)"

text \<open>
  \<^verbatim>\<open>df.head(n)\<close>: the first \<^verbatim>\<open>n\<close> rows, and for a negative \<^verbatim>\<open>n\<close> all rows but the
  last \<^verbatim>\<open>-n\<close>.
\<close>

definition df_head :: "int \<Rightarrow> 'a list \<Rightarrow> 'a list" where
  "df_head n rows =
     (if 0 \<le> n then take (nat n) rows else take (length rows - nat (- n)) rows)"

text \<open>
  \<^verbatim>\<open>
  df = pd.read_csv(csv_file_path)
  if limit:
      df = df.head(limit)
  \<close>
  The source is the list of rows that \<^verbatim>\<open>read_csv\<close> returns; \<^verbatim>\<open>if limit:\<close> is
  false for \<^verbatim>\<open>None\<close> and for 0.
\<close>

definition load_rows :: "'a list \<Rightarrow> int option \<Rightarrow> 'a list" where
  "load_rows source limit =
     (case limit of
        None \<Rightarrow> source
      | Some n \<Rightarrow> if n \<noteq> 0 then df_head n source else source)"

section \<open>Numbers\<close>

text \<open>
  \<^verbatim>\<open>float(n)\<close> of an integer rounds to the nearest float (53 significant bits, ties to
  even) and raises \<^verbatim>\<open>OverflowError\<close> beyond the largest float, that is when the
  rounded magnitude has more than 1024 bits.
\<close>

definition round_to_53_bits :: "nat \<Rightarrow> nat" where
  "round_to_53_bits m =
     (let k = nat (bitlen (int m)) - 53;
          q = m div 2 ^ k;
          r = m mod 2 ^ k
      in if k = 0 then m
         else if 2 * r > 2 ^ k \<or> (2 * r = 2 ^ k \<and> odd q) then (q + 1) * 2 ^ k
         else q * 2 ^ k)"

definition float_of_int :: "int \<Rightarrow> error + fval" where
  "float_of_int n =
     (let m = round_to_53_bits (nat \<bar>n\<bar>)
      in if 1024 < bitlen (int m) then Inl OverflowError
         else Inr (Finite (of_int (if n < 0 then - int m else int m))))"

text \<open>
  \<^verbatim>\<open>float(v)\<close>. What \<^verbatim>\<open>float\<close> makes of a text (a float, or \<^verbatim>\<open>ValueError\<close>) is
  the parameter \<open>float_of_text\<close>: Python's own parser, which is no part of the program.
\<close>

fun py_float :: "(string \<Rightarrow> fval option) \<Rightarrow> pyval \<Rightarrow> error + fval" where
  "py_float float_of_text PNone = Inl TypeError"
| "py_float float_of_text (PStr s) =
     (case float_of_text s of None \<Rightarrow> Inl ValueError | Some f \<Rightarrow> Inr f)"
| "py_float float_of_text (PInt n) = float_of_int n"
| "py_float float_of_text (PFloat f r) = Inr f"
| "py_float float_of_text (PBool b) = Inr (Finite (if b then 1 else 0))"

text \<open>\<^verbatim>\<open>int(f)\<close> of a float truncates towards zero.\<close>

definition trunc :: "rat \<Rightarrow> int" where
  "trunc q = (if 0 \<le> q then \<lfloor>q\<rfloor> else \<lceil>q\<rceil>)"

fun py_int :: "fval \<Rightarrow> error + int" where
  "py_int (Finite q) = Inr (trunc q)"
| "py_int Infinity = Inl OverflowError"
| "py_int NotANumber = Inl ValueError"

definition int_of_float_of :: "(string \<Rightarrow> fval option) \<Rightarrow> pyval \<Rightarrow> error + int" where
  "int_of_float_of float_of_text v =
     (case py_float float_of_text v of Inl e \<Rightarrow> Inl e | Inr f \<Rightarrow> py_int f)"

section \<open>The output\<close>

text \<open>
  The program appends pieces of text to \<^verbatim>\<open>ttl_content\<close>. The model keeps the pieces
  apart, each with the values the program formats into it; \<open>render\<close> is the text of a
  piece, and the file written is the concatenation of the rendered pieces.
\<close>

datatype category = Platform | Developer | Publisher | Genre | EsrbRating

datatype chunk =
    Preamble
  | SectionComment string
  | EntityDecl category string string
  | GameOpen string
  | Assertion string string
  | EntityRef category string
  | GameClose

definition unlines :: "string list \<Rightarrow> string" where
  "unlines ls = concat (map (\<lambda>l. l @ [newline]) ls)"

definition ttl_header :: string where
  "ttl_header = unlines
     [ ''@prefix : <http://www.semanticweb.org/kevin/ontologies/2025/7/VideoGames#> .'',
       ''@prefix dcterms: <http://purl.org/dc/terms/> .'',
       ''@prefix owl: <http://www.w3.org/2002/07/owl#> .'',
       ''@prefix rdf: <http://www.w3.org/1999/02/22-rdf-syntax-ns#> .'',
       ''@prefix rdfs: <http://www.w3.org/2000/01/rdf-schema#> .'',
       ''@prefix xsd: <http://www.w3.org/2001/XMLSchema#> .'',
       ''@prefix schema: <http://schema.org/> .'',
       ''@prefix rawg: <http://rawg.io/ontology#> .'',
       ''@prefix vgo: <http://purl.org/net/VideoGameOntology#> .'',
       [] ]"

fun subject_prefix :: "category \<Rightarrow> string" where
  "subject_prefix Platform = '':platform_''"
| "subject_prefix Developer = '':developer_''"
| "subject_prefix Publisher = '':publisher_''"
| "subject_prefix Genre = '':genre_''"
| "subject_prefix EsrbRating = '':esrb_''"

fun rdf_type :: "category \<Rightarrow> string" where
  "rdf_type Platform = ''schema:VideoGamePlatform''"
| "rdf_type Developer = ''schema:Organization''"
| "rdf_type Publisher = ''schema:Organization''"
| "rdf_type Genre = ''schema:Genre''"
| "rdf_type EsrbRating = ''schema:GameRating''"

fun ref_predicate :: "category \<Rightarrow> string" where
  "ref_predicate Platform = ''schema:gamePlatform''"
| "ref_predicate Developer = ''schema:developer''"
| "ref_predicate Publisher = ''schema:publisher''"
| "ref_predicate Genre = ''schema:genre''"
| "ref_predicate EsrbRating = ''schema:contentRating''"

text \<open>The separator \<^verbatim>\<open>' ;\n    '\<close> that opens every assertion of a game block.\<close>

definition next_assertion :: string where
  "next_assertion = '' ;'' @ [newline] @ ''    ''"

fun render :: "chunk \<Rightarrow> string" where
  "render Preamble = ttl_header"
| "render (SectionComment s) = s"
| "render (EntityDecl cat cleaned literal) =
     subject_prefix cat @ cleaned @ '' rdf:type '' @ rdf_type cat @ '' ;'' @ [newline]
     @ ''    schema:name '' @ [dq] @ literal @ [dq] @ '' .'' @ [newline, newline]"
| "render (GameOpen game_id) = '':game_'' @ game_id @ '' rdf:type schema:VideoGame''"
| "render (Assertion predicate object) = next_assertion @ predicate @ '' '' @ object"
| "render (EntityRef cat cleaned) =
     next_assertion @ ref_predicate cat @ '' '' @ subject_prefix cat @ cleaned"
| "render GameClose = '' .'' @ [newline, newline]"

definition render_all :: "chunk list \<Rightarrow> string" where
  "render_all chunks = concat (map render chunks)"

text \<open>A quoted literal with an optional datatype suffix.\<close>

definition quoted :: "string \<Rightarrow> string \<Rightarrow> string" where
  "quoted s sfx = [dq] @ s @ [dq] @ sfx"

section \<open>The collector\<close>



text \<open>The column of a category.\<close>

fun column :: "category \<Rightarrow> string" where
  "column Platform = ''platforms''"
| "column Developer = ''developers''"
| "column Publisher = ''publishers''"
| "column Genre = ''genres''"
| "column EsrbRating = ''esrb_rating''"

text \<open>
  The names a row holds in a multi-value column:
  \<^verbatim>\<open>parse_delimited_field(row.get('platforms', ''))\<close> and the \<^verbatim>\<open>'name'\<close> of its entries.
\<close>

definition row_names :: "row \<Rightarrow> category \<Rightarrow> string list" where
  "row_names r cat = names_of (parse_delimited_field (row_get r (column cat) (PStr [])))"

text \<open>
  The rating of a row:
  \<^verbatim>\<open>
  esrb = row.get('esrb_rating', '')
  if not pd.isna(esrb) and esrb != "":
      ... str(esrb).strip() ...
  \<close>
\<close>

definition row_rating :: "row \<Rightarrow> string list" where
  "row_rating r =
     (let esrb = row_get r ''esrb_rating'' (PStr [])
      in if \<not> pd_isna esrb \<and> esrb \<noteq> PStr [] then [strip (py_str esrb)] else [])"



section \<open>The emitter\<close>

subsection \<open>Entity phase\<close>


record orders =
  platform_order :: "string list"
  developer_order :: "string list"
  publisher_order :: "string list"
  genre_order :: "string list"
  esrb_order :: "string list"


text \<open>
  \<^verbatim>\<open>
  clean_platform = clean_uri_string(platform)
  if clean_platform:
      ttl_content += f":platform_{clean_platform} rdf:type schema:VideoGamePlatform ;\n"
      ttl_content += f'    schema:name "{clean_literal_string(platform)}" .\n\n'
  \<close>
\<close>

definition entity_block :: "category \<Rightarrow> string \<Rightarrow> chunk list" where
  "entity_block cat name =
     (let cleaned = clean_uri_string (PStr name)
      in if truthy cleaned
         then [EntityDecl cat (fmt_opt cleaned) (fmt_opt (clean_literal_string (PStr name)))]
         else [])"

definition entity_phase :: "orders \<Rightarrow> chunk list" where
  "entity_phase ord =
     [SectionComment (''# Plataformas'' @ [newline])]
     @ concat (map (entity_block Platform) (platform_order ord))
     @ [SectionComment (''# Desarrolladores'' @ [newline])]
     @ concat (map (entity_block Developer) (developer_order ord))
     @ [SectionComment (''# Editores'' @ [newline])]
     @ concat (map (entity_block Publisher) (publisher_order ord))
     @ [SectionComment (''# G'' @ [CHR 0xE9] @ ''neros'' @ [newline])]
     @ concat (map (entity_block Genre) (genre_order ord))
     @ [SectionComment (''# Ratings ESRB'' @ [newline])]
     @ concat (map (entity_block EsrbRating) (esrb_order ord))"

subsection \<open>Game phase\<close>

text \<open>
  The pieces of a game block are computed one after the other; the first exception raised
  ends the run.
\<close>

fun seq_steps :: "(error + chunk list) list \<Rightarrow> error + chunk list" where
  "seq_steps [] = Inr []"
| "seq_steps (step # steps) =
     (case step of
        Inl e \<Rightarrow> Inl e
      | Inr xs \<Rightarrow> (case seq_steps steps of Inl e \<Rightarrow> Inl e | Inr ys \<Rightarrow> Inr (xs @ ys)))"

text \<open>
  \<^verbatim>\<open>
  if not pd.isna(row.get('id')):
      ttl_content += f' ;\n    dcterms:identifier "{row["id"]}"'
  \<close>
\<close>

definition identifier_step :: "row \<Rightarrow> error + chunk list" where
  "identifier_step r =
     (if \<not> pd_isna (row_get r ''id'' PNone)
      then (case row_item r ''id'' of
              Inl e \<Rightarrow> Inl e
            | Inr v \<Rightarrow> Inr [Assertion ''dcterms:identifier'' (quoted (py_str v) [])])
      else Inr [])"

text \<open>
  \<^verbatim>\<open>
  if not pd.isna(row.get('name')) and row['name'] != "":
      ttl_content += f' ;\n    schema:name "{clean_literal_string(row["name"])}"'
  \<close>
  and the same for \<^verbatim>\<open>slug\<close>.
\<close>

definition literal_step :: "row \<Rightarrow> string \<Rightarrow> string \<Rightarrow> error + chunk list" where
  "literal_step r col predicate =
     (if \<not> pd_isna (row_get r col PNone)
      then (case row_item r col of
              Inl e \<Rightarrow> Inl e
            | Inr v \<Rightarrow>
                if v \<noteq> PStr []
                then Inr [Assertion predicate (quoted (fmt_opt (clean_literal_string v)) [])]
                else Inr [])
      else Inr [])"

text \<open>
  \<^verbatim>\<open>
  release_date = format_date(row.get('released'))
  if release_date:
      ttl_content += f' ;\n    schema:datePublished "{release_date}"^^xsd:date'
  \<close>
\<close>

definition date_step :: "row \<Rightarrow> error + chunk list" where
  "date_step r =
     (let release_date = format_date (row_get r ''released'' PNone)
      in if truthy release_date
         then Inr [Assertion ''schema:datePublished'' (quoted (fmt_opt release_date) ''^^xsd:date'')]
         else Inr [])"

text \<open>
  \<^verbatim>\<open>
  if not pd.isna(row.get('website')) and row['website'] != "":
      ttl_content += f' ;\n    schema:url "{row["website"]}"^^xsd:anyURI'
  \<close>
  and the same for \<^verbatim>\<open>updated\<close>.
\<close>

definition raw_step :: "row \<Rightarrow> string \<Rightarrow> string \<Rightarrow> string \<Rightarrow> error + chunk list" where
  "raw_step r col predicate sfx =
     (if \<not> pd_isna (row_get r col PNone)
      then (case row_item r col of
              Inl e \<Rightarrow> Inl e
            | Inr v \<Rightarrow>
                if v \<noteq> PStr [] then Inr [Assertion predicate (quoted (py_str v) sfx)]
                else Inr [])
      else Inr [])"

definition numeric_props :: "(string \<times> string \<times> string) list" where
  "numeric_props =
     [ (''metacritic'', ''schema:ratingValue'', ''decimal''),
       (''rating'', ''schema:bestRating'', ''decimal''),
       (''playtime'', ''vgo:averagePlayTime'', ''integer''),
       (''achievements_count'', ''rawg:achievementCount'', ''integer''),
       (''ratings_count'', ''schema:ratingCount'', ''integer''),
       (''suggestions_count'', ''rawg:suggestionCount'', ''integer''),
       (''game_series_count'', ''rawg:gameSeriesCount'', ''integer''),
       (''reviews_count'', ''schema:reviewCount'', ''integer''),
       (''added_status_yet'', ''rawg:addedStatusYet'', ''integer''),
       (''added_status_owned'', ''rawg:addedStatusOwned'', ''integer''),
       (''added_status_beaten'', ''rawg:addedStatusBeaten'', ''integer''),
       (''added_status_toplay'', ''rawg:addedStatusToPlay'', ''integer''),
       (''added_status_dropped'', ''rawg:addedStatusDropped'', ''integer''),
       (''added_status_playing'', ''rawg:addedStatusPlaying'', ''integer'') ]"

text \<open>
  \<^verbatim>\<open>
  value = row.get(col)
  if not pd.isna(value) and str(value) != "" and str(value) != "0.0":
      if data_type == 'integer':
          ttl_content += f' ;\n    {prop} "{int(float(value))}"^^xsd:integer'
      else:
          ttl_content += f' ;\n    {prop} "{value}"^^xsd:decimal'
  \<close>
\<close>

definition numeric_step ::
  "(string \<Rightarrow> fval option) \<Rightarrow> row \<Rightarrow> string \<times> string \<times> string \<Rightarrow> error + chunk list" where
  "numeric_step float_of_text r entry =
     (case entry of (col, prop, data_type) \<Rightarrow>
        let v = row_get r col PNone
        in if \<not> pd_isna v \<and> py_str v \<noteq> [] \<and> py_str v \<noteq> ''0.0''
           then if data_type = ''integer''
                then (case int_of_float_of float_of_text v of
                        Inl e \<Rightarrow> Inl e
                      | Inr n \<Rightarrow> Inr [Assertion prop (quoted (show_int n) ''^^xsd:integer'')])
                else Inr [Assertion prop (quoted (py_str v) ''^^xsd:decimal'')]
           else Inr [])"

text \<open>
  \<^verbatim>\<open>
  if not pd.isna(row.get('tba')):
      tba_value = "true" if str(row['tba']).lower() in ['true', '1'] else "false"
      ttl_content += f' ;\n    rawg:toBeAnnounced "{tba_value}"^^xsd:boolean'
  \<close>
\<close>

definition tba_step :: "row \<Rightarrow> error + chunk list" where
  "tba_step r =
     (if \<not> pd_isna (row_get r ''tba'' PNone)
      then (case row_item r ''tba'' of
              Inl e \<Rightarrow> Inl e
            | Inr v \<Rightarrow>
                let tba_value =
                      (if lower (py_str v) \<in> set [''true'', ''1''] then ''true'' else ''false'')
                in Inr [Assertion ''rawg:toBeAnnounced'' (quoted tba_value ''^^xsd:boolean'')])
      else Inr [])"

text \<open>
  \<^verbatim>\<open>
  clean_platform = clean_uri_string(platform['name'])
  if clean_platform:
      ttl_content += f' ;\n    schema:gamePlatform :platform_{clean_platform}'
  \<close>
\<close>

definition entity_ref :: "category \<Rightarrow> string \<Rightarrow> chunk list" where
  "entity_ref cat name =
     (let cleaned = clean_uri_string (PStr name)
      in if truthy cleaned then [EntityRef cat (fmt_opt cleaned)] else [])"

definition refs_step :: "row \<Rightarrow> category \<Rightarrow> error + chunk list" where
  "refs_step r cat = Inr (concat (map (entity_ref cat) (row_names r cat)))"

definition rating_step :: "row \<Rightarrow> error + chunk list" where
  "rating_step r = Inr (concat (map (entity_ref EsrbRating) (row_rating r)))"

text \<open>
  One pass of the second loop:
  \<^verbatim>\<open>
  game_id = row.get('id', '')
  if pd.isna(game_id):
      continue
  game_uri = f":game_{game_id}"
  ttl_content += f"{game_uri} rdf:type schema:VideoGame"
  ...
  ttl_content += " .\n\n"
  \<close>
\<close>

definition game_block :: "(string \<Rightarrow> fval option) \<Rightarrow> row \<Rightarrow> error + chunk list" where
  "game_block float_of_text r =
     (let game_id = row_get r ''id'' (PStr [])
      in if pd_isna game_id then Inr []
         else seq_steps
           ([ Inr [GameOpen (py_str game_id)],
              identifier_step r,
              literal_step r ''name'' ''schema:name'',
              literal_step r ''slug'' ''schema:alternateName'',
              date_step r,
              raw_step r ''website'' ''schema:url'' ''^^xsd:anyURI'' ]
            @ map (numeric_step float_of_text r) numeric_props
            @ [ tba_step r,
                raw_step r ''updated'' ''dcterms:modified'' ''^^xsd:dateTime'',
                refs_step r Platform,
                refs_step r Developer,
                refs_step r Publisher,
                refs_step r Genre,
                rating_step r,
                Inr [GameClose] ]))"

definition game_phase :: "(string \<Rightarrow> fval option) \<Rightarrow> row list \<Rightarrow> error + chunk list" where
  "game_phase float_of_text rows = seq_steps (map (game_block float_of_text) rows)"

subsection \<open>The whole run\<close>

text \<open>
  The pieces appended to \<^verbatim>\<open>ttl_content\<close> by a run over the loaded rows, for a given
  iteration of each entity set. An exception in the game phase ends the run before the
  file is opened, so nothing is written.
\<close>

definition ttl_chunks :: "(string \<Rightarrow> fval option) \<Rightarrow> orders \<Rightarrow> row list \<Rightarrow> error + chunk list" where
  "ttl_chunks float_of_text ord rows =
     (case game_phase float_of_text rows of
        Inl e \<Rightarrow> Inl e
      | Inr games \<Rightarrow>
          Inr ([Preamble] @ entity_phase ord
               @ [SectionComment (''# Videojuegos'' @ [newline])] @ games))"

text \<open>
  \<^verbatim>\<open>generate_ttl_from_rawg_dataset(csv_file_path, output_file_path, limit)\<close>: the text
  written to the output file, for the rows \<open>source\<close> of the CSV file.
\<close>

definition generate_ttl_from_rawg_dataset ::
  "(string \<Rightarrow> fval option) \<Rightarrow> orders \<Rightarrow> row list \<Rightarrow> int option \<Rightarrow> error + string" where
  "generate_ttl_from_rawg_dataset float_of_text ord source limit =
     (case ttl_chunks float_of_text ord (load_rows source limit) of
        Inl e \<Rightarrow> Inl e
      | Inr chunks \<Rightarrow> Inr (render_all chunks))"


section \<open>Escaped literals\<close>

text \<open>Every double quote of a text stands right after a backslash.\<close>

definition quotes_escaped :: "string \<Rightarrow> bool" where
  "quotes_escaped s =
     (\<forall>i < length s. s ! i = dq \<longrightarrow> 0 < i \<and> s ! (i - 1) = backslash)"

text \<open>The same, read from the left: \<open>p\<close> is the character before the text.\<close>

fun escaped_after :: "char \<Rightarrow> string \<Rightarrow> bool" where
  "escaped_after p [] = True"
| "escaped_after p (c # cs) = ((c \<noteq> dq \<or> p = backslash) \<and> escaped_after c cs)"

section \<open>Reading the output\<close>

text \<open>The objects that a list of pieces asserts for a predicate, in order.\<close>

fun asserted :: "string \<Rightarrow> chunk \<Rightarrow> string list" where
  "asserted p (Assertion q obj) = (if q = p then [obj] else [])"
| "asserted p c = []"

definition assertions_of :: "string \<Rightarrow> chunk list \<Rightarrow> string list" where
  "assertions_of p chunks = concat (map (asserted p) chunks)"



text \<open>
  The lines of a text, and the prefixes that its \<^verbatim>\<open>@prefix\<close> lines declare (the name
  before the colon).
\<close>

fun lines_of :: "string \<Rightarrow> string list" where
  "lines_of [] = []"
| "lines_of (c # cs) =
     (if c = newline then [] # lines_of cs
      else (case lines_of cs of [] \<Rightarrow> [[c]] | l # ls \<Rightarrow> (c # l) # ls))"

definition declared_prefixes :: "string \<Rightarrow> string list" where
  "declared_prefixes text =
     map (\<lambda>l. takeWhile (\<lambda>c. c \<noteq> CHR '':'') (drop 8 l))
       (filter (\<lambda>l. take 8 l = ''@prefix '') (lines_of text))"

text \<open>The prefix of a prefixed name such as \<^verbatim>\<open>schema:name\<close>.\<close>

definition prefix_of :: "string \<Rightarrow> string" where
  "prefix_of name = takeWhile (\<lambda>c. c \<noteq> CHR '':'') name"

section \<open>The field parser, as specified\<close>

text \<open>Joining segments with the delimiter between them: \<^verbatim>\<open>'||'.join(segments)\<close>.\<close>

fun join_bars :: "string list \<Rightarrow> string" where
  "join_bars [] = []"
| "join_bars [seg] = seg"
| "join_bars (seg # segs) = seg @ ''||'' @ join_bars segs"

text \<open>
  The segments of a raw value: split at the delimiter, each trimmed, the empty ones
  dropped, in order.
\<close>

definition trimmed_segments :: "string \<Rightarrow> string list" where
  "trimmed_segments raw = filter (\<lambda>seg. seg \<noteq> []) (map strip (split_bars raw))"

section \<open>The identifier cleaner, as specified\<close>

text \<open>
  Each run of whitespace replaced by a single underscore: a whitespace character becomes
  an underscore when it opens a run and disappears otherwise. The flag says whether the
  character before was whitespace.
\<close>

fun underscore_runs :: "bool \<Rightarrow> string \<Rightarrow> string" where
  "underscore_runs in_run [] = []"
| "underscore_runs in_run (c # cs) =
     (if is_space c then (if in_run then [] else ''_'') @ underscore_runs True cs
      else c # underscore_runs False cs)"

text \<open>
  The cleaner of the specification for a given set of characters to keep: strip the other
  characters, trim, replace the runs of whitespace, percent-encode.
\<close>

definition cleanForUri :: "(char \<Rightarrow> bool) \<Rightarrow> pyval \<Rightarrow> string option" where
  "cleanForUri keep text =
     (if pd_isna text \<or> text = PStr [] then None
      else Some (quote (underscore_runs False (strip (filter keep (py_str text))))))"

text \<open>The characters the specification keeps: letters, digits, underscore, whitespace.\<close>

definition kept_as_claimed :: "char \<Rightarrow> bool" where
  "kept_as_claimed c = (is_alnum c \<or> c = CHR ''_'' \<or> is_space c)"

text \<open>The characters the program keeps: those, and the hyphen.\<close>

definition kept_with_hyphen :: "char \<Rightarrow> bool" where
  "kept_with_hyphen c = (is_alnum c \<or> c = CHR ''_'' \<or> is_space c \<or> c = CHR ''-'')"

section \<open>The date formatter, as specified\<close>

text \<open>The number a text of decimal digits denotes.\<close>

definition number :: "string \<Rightarrow> nat" where
  "number ds = foldl (\<lambda>n c. 10 * n + digit_val c) 0 ds"

text \<open>
  A calendar date in strict \<^verbatim>\<open>YYYY-MM-DD\<close> form: four digits, a hyphen, two digits, a
  hyphen, two digits, naming a day that exists.
\<close>

definition strict_ymd :: "string \<Rightarrow> bool" where
  "strict_ymd s =
     (length s = 10 \<and> s ! 4 = CHR ''-'' \<and> s ! 7 = CHR ''-''
      \<and> list_all is_digit (take 4 s) \<and> list_all is_digit (take 2 (drop 5 s))
      \<and> list_all is_digit (drop 8 s)
      \<and> valid_date (number (take 4 s)) (number (take 2 (drop 5 s))) (number (drop 8 s)))"

text \<open>The formatter as specified: the strict form or nothing.\<close>

definition formatDate :: "pyval \<Rightarrow> string option" where
  "formatDate v =
     (if pd_isna v \<or> v = PStr [] then None
      else if strict_ymd (py_str v) then Some (py_str v) else None)"

text \<open>
  The form that \<^verbatim>\<open>strptime\<close> accepts among the texts of the model's alphabet: a month of
  one or two digits, and a day of one or two digits or of a space and a digit.
\<close>

definition month_text :: "string \<Rightarrow> bool" where
  "month_text m =
     (1 \<le> length m \<and> length m \<le> 2 \<and> list_all is_digit m \<and> 1 \<le> number m \<and> number m \<le> 12)"

definition day_text :: "string \<Rightarrow> bool" where
  "day_text d =
     ((1 \<le> length d \<and> length d \<le> 2 \<and> list_all is_digit d \<and> 1 \<le> number d \<and> number d \<le> 31)
      \<or> (length d = 2 \<and> d ! 0 = CHR '' '' \<and> is_digit (d ! 1) \<and> d ! 1 \<noteq> CHR ''0''))"

definition day_number :: "string \<Rightarrow> nat" where
  "day_number d = number (filter is_digit d)"

definition lenient_ymd :: "string \<Rightarrow> bool" where
  "lenient_ymd s =
     (let y = take 4 s;
          rest = drop 5 s;
          m = takeWhile (\<lambda>c. c \<noteq> CHR ''-'') rest;
          d = drop (Suc (length m)) rest
      in 4 < length s \<and> s ! 4 = CHR ''-'' \<and> length m < length rest
         \<and> list_all is_digit y \<and> month_text m \<and> day_text d
         \<and> valid_date (number y) (number m) (day_number d))"

section \<open>The shape of the output\<close>







chapter \<open>Properties\<close>

section \<open>Properties of the literal cleaner\<close>

lemma escaped_after_nth:
  "escaped_after p s \<longleftrightarrow>
     (\<forall>i < length s. s ! i = dq \<longrightarrow> (if i = 0 then p = backslash else s ! (i - 1) = backslash))"
proof (induction s arbitrary: p)
  case Nil
  show ?case by simp
next
  case (Cons c cs)
  show ?case
  proof
    assume a: "escaped_after p (c # cs)"
    show "\<forall>i<length (c # cs). (c # cs) ! i = dq \<longrightarrow>
            (if i = 0 then p = backslash else (c # cs) ! (i - 1) = backslash)"
    proof (intro allI impI)
      fix i assume i: "i < length (c # cs)" and q: "(c # cs) ! i = dq"
      show "if i = 0 then p = backslash else (c # cs) ! (i - 1) = backslash"
      proof (cases i)
        case 0
        with a q show ?thesis by auto
      next
        case (Suc j)
        from a have "escaped_after c cs" by simp
        with Cons.IH [of c] i q Suc
        have "if j = 0 then c = backslash else cs ! (j - 1) = backslash" by auto
        with Suc show ?thesis by (cases j) auto
      qed
    qed
  next
    assume r: "\<forall>i<length (c # cs). (c # cs) ! i = dq \<longrightarrow>
            (if i = 0 then p = backslash else (c # cs) ! (i - 1) = backslash)"
    from r [rule_format, of 0] have h: "c \<noteq> dq \<or> p = backslash" by auto
    have "\<forall>j<length cs. cs ! j = dq \<longrightarrow> (if j = 0 then c = backslash else cs ! (j - 1) = backslash)"
    proof (intro allI impI)
      fix j assume j: "j < length cs" and q: "cs ! j = dq"
      from r [rule_format, of "Suc j"] j q
      have "(c # cs) ! j = backslash" by auto
      then show "if j = 0 then c = backslash else cs ! (j - 1) = backslash"
        by (cases j) auto
    qed
    with Cons.IH [of c] have "escaped_after c cs" by simp
    with h show "escaped_after p (c # cs)" by simp
  qed
qed

lemma quotes_escaped_iff: "quotes_escaped s \<longleftrightarrow> escaped_after dq s"
proof -
  have ne: "dq \<noteq> backslash" by (simp add: dq_def backslash_def)
  have "(if i = 0 then dq = backslash else s ! (i - 1) = backslash)
        \<longleftrightarrow> (0 < i \<and> s ! (i - 1) = backslash)" for i
    using ne by auto
  then show ?thesis
    unfolding quotes_escaped_def escaped_after_nth by simp
qed

lemma escaped_after_weaken: "escaped_after p s \<Longrightarrow> p \<noteq> backslash \<Longrightarrow> escaped_after p' s"
  by (cases s) auto

lemma escaped_after_quote: "escaped_after p (replace_char dq [backslash, dq] s)"
  by (induction s arbitrary: p) (auto simp: replace_char_def dq_def backslash_def)

lemma escaped_after_replace:
  "escaped_after p s \<Longrightarrow> x \<noteq> backslash \<Longrightarrow> y \<noteq> dq \<Longrightarrow>
   escaped_after p (replace_char x [backslash, y] s)"
proof (induction s arbitrary: p)
  case Nil
  then show ?case by (simp add: replace_char_def)
next
  case (Cons c cs)
  have bq: "backslash \<noteq> dq" by (simp add: dq_def backslash_def)
  show ?case
  proof (cases "c = x")
    case True
    from Cons.prems True have "escaped_after x cs" by simp
    then have "escaped_after y cs" using Cons.prems(2) by (rule escaped_after_weaken)
    then have "escaped_after y (replace_char x [backslash, y] cs)"
      using Cons.prems by (intro Cons.IH)
    with True Cons.prems bq show ?thesis by (simp add: replace_char_def)
  next
    case False
    from Cons.prems have "escaped_after c cs" by simp
    then have "escaped_after c (replace_char x [backslash, y] cs)"
      using Cons.prems by (intro Cons.IH)
    with False Cons.prems show ?thesis by (simp add: replace_char_def)
  qed
qed

lemma set_replace_char:
  "set (replace_char x new s) \<subseteq> (set s - {x}) \<union> set new"
  by (induction s) (auto simp: replace_char_def)

lemma replace_char_removes: "x \<notin> set new \<Longrightarrow> x \<notin> set (replace_char x new s)"
  using set_replace_char [of x new s] by auto

text \<open>
  Claim C10. The result of \<^verbatim>\<open>clean_literal_string\<close> on a value that is neither missing
  nor the empty string holds no newline and no carriage return, and each of its double
  quotes stands right after a backslash; on a missing or empty value the result is
  \<^verbatim>\<open>None\<close>.
\<close>

theorem clean_literal_string_safe:
  "(pd_isna v \<or> v = PStr [] \<longrightarrow> clean_literal_string v = None)
   \<and> (\<not> pd_isna v \<and> v \<noteq> PStr [] \<longrightarrow>
        (\<exists>r. clean_literal_string v = Some r \<and> newline \<notin> set r
             \<and> carriage_return \<notin> set r \<and> quotes_escaped r))"
proof -
  let ?a = "replace_char dq [backslash, dq] (py_str v)"
  let ?b = "replace_char newline [backslash, CHR ''n''] ?a"
  let ?c = "replace_char carriage_return [backslash, CHR ''r''] ?b"
  have "newline \<notin> set ?b"
    by (rule replace_char_removes) (simp add: newline_def backslash_def)
  then have n: "newline \<notin> set ?c"
    using set_replace_char [of carriage_return "[backslash, CHR ''r'']" ?b]
    by (auto simp: newline_def backslash_def)
  have r: "carriage_return \<notin> set ?c"
    by (rule replace_char_removes) (simp add: carriage_return_def backslash_def)
  have "escaped_after dq ?a" by (rule escaped_after_quote)
  then have "escaped_after dq ?b"
    by (rule escaped_after_replace) (simp_all add: newline_def backslash_def dq_def)
  then have "escaped_after dq ?c"
    by (rule escaped_after_replace) (simp_all add: carriage_return_def backslash_def dq_def)
  then have q: "quotes_escaped ?c" by (simp add: quotes_escaped_iff)
  from n r q show ?thesis by (simp add: clean_literal_string_def)
qed

theorem clean_literal_string_safe_witness:
  "clean_literal_string (PStr [CHR ''a'', dq, newline, carriage_return]) =
     Some [CHR ''a'', backslash, dq, backslash, CHR ''n'', backslash, CHR ''r'']
   \<and> quotes_escaped [CHR ''a'', backslash, dq, backslash, CHR ''n'', backslash, CHR ''r'']
   \<and> clean_literal_string PNone = None \<and> clean_literal_string (PStr []) = None"
proof -
  have e: "clean_literal_string (PStr [CHR ''a'', dq, newline, carriage_return]) =
     Some [CHR ''a'', backslash, dq, backslash, CHR ''n'', backslash, CHR ''r'']"
    by code_simp
  have m: "clean_literal_string PNone = None" "clean_literal_string (PStr []) = None"
    by (simp_all add: clean_literal_string_def)
  from clean_literal_string_safe [of "PStr [CHR ''a'', dq, newline, carriage_return]"] e m
  show ?thesis by simp
qed

section \<open>Properties of the emitter\<close>


lemma seq_steps_append:
  "seq_steps (a @ b) =
     (case seq_steps a of
        Inl e \<Rightarrow> Inl e
      | Inr xs \<Rightarrow> (case seq_steps b of Inl e \<Rightarrow> Inl e | Inr ys \<Rightarrow> Inr (xs @ ys)))"
  by (induction a) (auto split: sum.splits)



lemma assertions_of_simps [simp]:
  "assertions_of p [] = []"
  "assertions_of p (c # cs) = asserted p c @ assertions_of p cs"
  "assertions_of p (xs @ ys) = assertions_of p xs @ assertions_of p ys"
  by (simp_all add: assertions_of_def)

















lemma numeric_props_types:
  "(col, prop, dt) \<in> set numeric_props \<Longrightarrow> dt = ''integer'' \<or> dt = ''decimal''"
  by (auto simp: numeric_props_def)















lemma trunc_towards_zero:
  "\<bar>of_int (trunc q)\<bar> \<le> \<bar>q\<bar> \<and> \<bar>q\<bar> < \<bar>of_int (trunc q)\<bar> + 1
   \<and> (0 \<le> q \<longrightarrow> 0 \<le> trunc q) \<and> (q \<le> 0 \<longrightarrow> trunc q \<le> 0)"
proof (cases "0 \<le> q")
  case True
  define n where "n = \<lfloor>q\<rfloor>"
  have t: "trunc q = n" using True by (simp add: trunc_def n_def)
  have n0: "0 \<le> n" using True by (simp add: n_def)
  have b: "of_int n \<le> q" "q < of_int n + 1" unfolding n_def by linarith+
  from n0 have "\<bar>(of_int n :: rat)\<bar> = of_int n" by simp
  moreover from True have "\<bar>q\<bar> = q" by simp
  ultimately show ?thesis unfolding t using b n0 True by auto
next
  case False
  define n where "n = \<lceil>q\<rceil>"
  have t: "trunc q = n" using False by (simp add: trunc_def n_def)
  have n0: "n \<le> 0" using False by (simp add: n_def ceiling_le_iff)
  have b: "q \<le> of_int n" "of_int n < q + 1" unfolding n_def by linarith+
  from n0 have "\<bar>(of_int n :: rat)\<bar> = - of_int n" by simp
  moreover from False have "\<bar>q\<bar> = - q" by simp
  ultimately show ?thesis unfolding t using b n0 False by auto
qed








lemma load_rows_positive:
  "0 < n \<Longrightarrow> load_rows source (Some n) = take (nat n) source"
  by (simp add: load_rows_def df_head_def)

lemma load_rows_negative:
  "n < 0 \<Longrightarrow> load_rows source (Some n) = take (length source - nat (- n)) source"
  by (simp add: load_rows_def df_head_def)

text \<open>
  Claim C8 at the limit 0. The claim says that a set limit bounds the number of rows
  returned; \<^verbatim>\<open>if limit:\<close> is false for 0, and the loader returns the whole source.
\<close>

theorem load_rows_zero_limit: "load_rows source (Some 0) = source"
  by (simp add: load_rows_def)

lemma game_block_missing_id:
  "pd_isna (row_get r ''id'' (PStr [])) \<Longrightarrow> game_block ft r = Inr []"
  by (simp add: game_block_def)

lemma game_phase_skips:
  "game_block ft r = Inr [] \<Longrightarrow> game_phase ft (before @ r # after) = game_phase ft (before @ after)"
  by (simp add: game_phase_def seq_steps_append split: sum.splits)

text \<open>
  Claim C4 at a table without an \<^verbatim>\<open>id\<close> column. The claim says that a row whose
  identifier is missing emits nothing; \<^verbatim>\<open>row.get('id', '')\<close> is then the empty string,
  which \<^verbatim>\<open>pd.isna\<close> does not take for missing, and the row gets a block with the
  subject \<^verbatim>\<open>:game_\<close>.
\<close>

theorem game_block_without_id_column:
  "row_get [''name'' \<mapsto> PStr ''Halo''] ''id'' PNone = PNone
   \<and> game_block ft [''name'' \<mapsto> PStr ''Halo''] =
       Inr [GameOpen [], Assertion ''schema:name'' (quoted ''Halo'' []), GameClose]"
proof -
  have "game_block ft [''name'' \<mapsto> PStr ''Halo''] =
       Inr [GameOpen [], Assertion ''schema:name'' (quoted ''Halo'' []), GameClose]"
    by code_simp
  then show ?thesis by (simp add: row_get_def)
qed

lemma declared_prefixes_header:
  "declared_prefixes ttl_header =
     [[], ''dcterms'', ''owl'', ''rdf'', ''rdfs'', ''xsd'', ''schema'', ''rawg'', ''vgo'']"
  by code_simp

text \<open>
  The claim as stated fails: the preamble does not declare seven prefixes.
\<close>

theorem preamble_counterexample: "length (declared_prefixes ttl_header) \<noteq> 7"
  by (simp add: declared_prefixes_header)

text \<open>
  Claim C9, as amended. The preamble declares nine namespace prefixes, the \<^verbatim>\<open>rawg\<close>
  and \<^verbatim>\<open>vgo\<close> prefixes among them; the prefix of every metric predicate is declared;
  and the text written by a run that completes begins with the preamble.
\<close>

theorem preamble_declares:
  "length (declared_prefixes ttl_header) = 9
   \<and> ''rawg'' \<in> set (declared_prefixes ttl_header)
   \<and> ''vgo'' \<in> set (declared_prefixes ttl_header)
   \<and> (\<forall>entry \<in> set numeric_props.
         prefix_of (fst (snd entry)) \<in> set (declared_prefixes ttl_header))
   \<and> (generate_ttl_from_rawg_dataset ft ord source limit = Inr text \<longrightarrow>
         prefix ttl_header text)"
proof -
  have "prefix ttl_header text"
    if "generate_ttl_from_rawg_dataset ft ord source limit = Inr text"
    using that
    by (auto simp: generate_ttl_from_rawg_dataset_def ttl_chunks_def render_all_def
          split: sum.splits)
  moreover have "\<forall>entry \<in> set numeric_props.
         prefix_of (fst (snd entry)) \<in> set (declared_prefixes ttl_header)"
    unfolding declared_prefixes_header by (simp add: numeric_props_def prefix_of_def)
  ultimately show ?thesis by (simp add: declared_prefixes_header)
qed

theorem preamble_declares_witness:
  "generate_ttl_from_rawg_dataset Map.empty
     \<lparr> platform_order = [], developer_order = [], publisher_order = [], genre_order = [],
       esrb_order = [] \<rparr> [] None
     = Inr (render_all (Preamble # entity_phase
         \<lparr> platform_order = [], developer_order = [], publisher_order = [], genre_order = [],
           esrb_order = [] \<rparr> @ [SectionComment (''# Videojuegos'' @ [newline])]))
   \<and> prefix ttl_header (render_all (Preamble # entity_phase
         \<lparr> platform_order = [], developer_order = [], publisher_order = [], genre_order = [],
           esrb_order = [] \<rparr> @ [SectionComment (''# Videojuegos'' @ [newline])]))
   \<and> prefix_of ''vgo:averagePlayTime'' \<in> set (declared_prefixes ttl_header)"
proof -
  let ?ord = "\<lparr> platform_order = [], developer_order = [], publisher_order = [],
       genre_order = [], esrb_order = [] \<rparr>"
  have run: "generate_ttl_from_rawg_dataset Map.empty ?ord [] None
     = Inr (render_all (Preamble # entity_phase ?ord @ [SectionComment (''# Videojuegos'' @ [newline])]))"
    by (simp add: generate_ttl_from_rawg_dataset_def ttl_chunks_def game_phase_def load_rows_def)
  have m: "(''playtime'', ''vgo:averagePlayTime'', ''integer'') \<in> set numeric_props"
    by (simp add: numeric_props_def)
  from preamble_declares [of Map.empty ?ord "[]" None
      "render_all (Preamble # entity_phase ?ord @ [SectionComment (''# Videojuegos'' @ [newline])])"]
    run m
  show ?thesis by force
qed

section \<open>Properties of the field parser\<close>

lemma split_bars_nonempty [simp]: "split_bars s \<noteq> []"
  by (induction s rule: split_bars.induct) (auto split: list.splits)

lemma split_bars_Cons:
  "c \<noteq> CHR ''|'' \<Longrightarrow> split_bars (c # s) = (c # hd (split_bars s)) # tl (split_bars s)"
  by (cases s) (auto split: list.splits)

lemma split_bars_snoc:
  "c \<noteq> CHR ''|'' \<Longrightarrow>
   split_bars (s @ [c]) = butlast (split_bars s) @ [last (split_bars s) @ [c]]"
proof (induction s rule: split_bars.induct)
  case (1 a b rest)
  show ?case
  proof (cases "a = CHR ''|'' \<and> b = CHR ''|''")
    case True
    with 1 show ?thesis by simp
  next
    case False
    with 1 have IH: "split_bars ((b # rest) @ [c]) =
        butlast (split_bars (b # rest)) @ [last (split_bars (b # rest)) @ [c]]" by simp
    obtain seg segs where X: "split_bars (b # rest) = seg # segs"
      by (cases "split_bars (b # rest)") (use split_bars_nonempty in auto)
    from False IH X show ?thesis by (cases segs) auto
  qed
qed simp_all

lemma join_bars_Cons: "segs \<noteq> [] \<Longrightarrow> join_bars (seg # segs) = seg @ ''||'' @ join_bars segs"
  by (cases segs) auto

lemma join_bars_split: "join_bars (split_bars s) = s"
proof (induction s rule: split_bars.induct)
  case (1 a b rest)
  show ?case
  proof (cases "a = CHR ''|'' \<and> b = CHR ''|''")
    case True
    with 1 show ?thesis by (simp add: join_bars_Cons)
  next
    case False
    obtain seg segs where X: "split_bars (b # rest) = seg # segs"
      by (cases "split_bars (b # rest)") (use split_bars_nonempty in auto)
    with 1 False have "join_bars (seg # segs) = b # rest" by simp
    with False X show ?thesis by (cases segs) auto
  qed
qed simp_all

lemma contains_bars_Cons: "c \<noteq> CHR ''|'' \<Longrightarrow> contains_bars (c # s) = contains_bars s"
  by (cases s) auto

lemma contains_bars_snoc: "c \<noteq> CHR ''|'' \<Longrightarrow> contains_bars (s @ [c]) = contains_bars s"
  by (induction s rule: contains_bars.induct) auto

lemma split_bars_segments: "seg \<in> set (split_bars s) \<Longrightarrow> \<not> contains_bars seg"
proof (induction s arbitrary: seg rule: split_bars.induct)
  case (1 a b rest)
  show ?case
  proof (cases "a = CHR ''|'' \<and> b = CHR ''|''")
    case True
    with 1 show ?thesis by auto
  next
    case False
    obtain x xs where X: "split_bars (b # rest) = x # xs"
      by (cases "split_bars (b # rest)") (use split_bars_nonempty in auto)
    with False "1.prems" have "seg = a # x \<or> seg \<in> set xs" by auto
    then show ?thesis
    proof
      assume s: "seg = a # x"
      from 1(2) [of x] False X have nx: "\<not> contains_bars x" by simp
      show ?thesis
      proof (cases x)
        case Nil
        with s show ?thesis by simp
      next
        case (Cons y ys)
        have "\<not> (a = CHR ''|'' \<and> y = CHR ''|'')"
        proof
          assume ay: "a = CHR ''|'' \<and> y = CHR ''|''"
          with False have "b \<noteq> CHR ''|''" by simp
          from join_bars_split [of "b # rest"] X Cons have "hd (join_bars ((y # ys) # xs)) = b"
            by simp
          moreover have "hd (join_bars ((y # ys) # xs)) = y" by (cases xs) auto
          ultimately show False using ay \<open>b \<noteq> CHR ''|''\<close> by simp
        qed
        with s Cons nx show ?thesis by auto
      qed
    next
      assume "seg \<in> set xs"
      with 1(2) [of seg] False X show ?thesis by simp
    qed
  qed
qed simp_all


lemma bar_not_space: "is_space c \<Longrightarrow> c \<noteq> CHR ''|''"
  by (auto simp: is_space_def)

lemma strip_Cons_space: "is_space c \<Longrightarrow> strip (c # s) = strip s"
  by (simp add: strip_def)

lemma strip_snoc_space:
  assumes "is_space c"
  shows "strip (s @ [c]) = strip s"
proof (cases "\<forall>x \<in> set s. is_space x")
  case True
  then have "dropWhile is_space s = []" by (simp add: dropWhile_eq_Nil_conv)
  moreover from True assms have "dropWhile is_space (s @ [c]) = []"
    by (simp add: dropWhile_eq_Nil_conv)
  ultimately show ?thesis by (simp only: strip_def)
next
  case False
  then obtain x where "x \<in> set s" "\<not> is_space x" by blast
  then have "dropWhile is_space (s @ [c]) = dropWhile is_space s @ [c]"
    by (rule dropWhile_append1)
  with assms show ?thesis by (simp add: strip_def)
qed

lemma strip_split_Cons_space:
  assumes "is_space c"
  shows "map strip (split_bars (c # s)) = map strip (split_bars s)"
proof -
  obtain seg segs where X: "split_bars s = seg # segs"
    by (cases "split_bars s") (use split_bars_nonempty in auto)
  from assms have "c \<noteq> CHR ''|''" by (rule bar_not_space)
  then have "split_bars (c # s) = (c # seg) # segs" using X by (simp add: split_bars_Cons)
  with X assms show ?thesis by (simp add: strip_Cons_space)
qed

lemma strip_split_snoc_space:
  assumes "is_space c"
  shows "map strip (split_bars (s @ [c])) = map strip (split_bars s)"
proof -
  from assms have "c \<noteq> CHR ''|''" by (rule bar_not_space)
  then have "split_bars (s @ [c]) = butlast (split_bars s) @ [last (split_bars s) @ [c]]"
    by (rule split_bars_snoc)
  then have "map strip (split_bars (s @ [c]))
      = map strip (butlast (split_bars s)) @ [strip (last (split_bars s))]"
    using assms by (simp add: strip_snoc_space)
  also have "\<dots> = map strip (butlast (split_bars s) @ [last (split_bars s)])"
    by (simp only: map_append list.map)
  also have "\<dots> = map strip (split_bars s)"
    by (simp only: append_butlast_last_id [OF split_bars_nonempty])
  finally show ?thesis .
qed

lemma strip_split_prepend:
  "\<forall>c \<in> set pre. is_space c \<Longrightarrow> map strip (split_bars (pre @ s)) = map strip (split_bars s)"
  by (induction pre) (simp_all add: strip_split_Cons_space)

lemma strip_split_append:
  "\<forall>c \<in> set post. is_space c \<Longrightarrow> map strip (split_bars (s @ post)) = map strip (split_bars s)"
proof (induction post arbitrary: s)
  case Nil
  then show ?case by simp
next
  case (Cons c post)
  have "map strip (split_bars ((s @ [c]) @ post)) = map strip (split_bars (s @ [c]))"
    using Cons.prems by (intro Cons.IH) simp
  with Cons.prems show ?case by (simp add: strip_split_snoc_space)
qed

lemma contains_bars_prepend:
  "\<forall>c \<in> set pre. is_space c \<Longrightarrow> contains_bars (pre @ s) = contains_bars s"
  by (induction pre) (simp_all add: contains_bars_Cons bar_not_space del: contains_bars.simps)

lemma contains_bars_append:
  "\<forall>c \<in> set post. is_space c \<Longrightarrow> contains_bars (s @ post) = contains_bars s"
proof (induction post arbitrary: s)
  case Nil
  then show ?case by simp
next
  case (Cons c post)
  have "contains_bars ((s @ [c]) @ post) = contains_bars (s @ [c])"
    using Cons.prems by (intro Cons.IH) simp
  with Cons.prems show ?case by (simp add: contains_bars_snoc bar_not_space)
qed

text \<open>A text is its trimmed form between two runs of whitespace.\<close>

lemma strip_decomposition:
  "\<exists>pre post. s = pre @ strip s @ post
     \<and> (\<forall>c \<in> set pre. is_space c) \<and> (\<forall>c \<in> set post. is_space c)"
proof -
  let ?d = "dropWhile is_space s"
  let ?pre = "takeWhile is_space s"
  let ?post = "rev (takeWhile is_space (rev ?d))"
  have "rev (takeWhile is_space (rev ?d) @ dropWhile is_space (rev ?d)) = rev (rev ?d)"
    by (simp only: takeWhile_dropWhile_id)
  then have "rev (dropWhile is_space (rev ?d)) @ ?post = ?d"
    by (simp only: rev_append rev_rev_ident)
  then have "?d = strip s @ ?post" by (simp only: strip_def)
  moreover have "s = ?pre @ ?d" by simp
  ultimately have "s = ?pre @ strip s @ ?post" by simp
  moreover have "\<forall>c \<in> set ?pre. is_space c" by (auto dest: set_takeWhileD)
  moreover have "\<forall>c \<in> set ?post. is_space c" by (auto dest: set_takeWhileD)
  ultimately show ?thesis by blast
qed

lemma strip_split_strip: "map strip (split_bars (strip s)) = map strip (split_bars s)"
proof -
  from strip_decomposition [of s] obtain pre post where
    d: "s = pre @ strip s @ post" "\<forall>c \<in> set pre. is_space c" "\<forall>c \<in> set post. is_space c"
    by blast
  have "map strip (split_bars (pre @ strip s @ post)) = map strip (split_bars (strip s @ post))"
    using d(2) by (rule strip_split_prepend)
  also have "\<dots> = map strip (split_bars (strip s))"
    using d(3) by (rule strip_split_append)
  finally show ?thesis using d(1) by simp
qed

lemma contains_bars_strip: "contains_bars (strip s) = contains_bars s"
proof -
  from strip_decomposition [of s] obtain pre post where
    d: "s = pre @ strip s @ post" "\<forall>c \<in> set pre. is_space c" "\<forall>c \<in> set post. is_space c"
    by blast
  have "contains_bars (pre @ strip s @ post) = contains_bars (strip s @ post)"
    using d(2) by (rule contains_bars_prepend)
  also have "\<dots> = contains_bars (strip s)"
    using d(3) by (rule contains_bars_append)
  finally show ?thesis using d(1) by simp
qed

lemma contains_bars_not_blank: "contains_bars s \<Longrightarrow> s \<noteq> [] \<and> strip s \<noteq> []"
  using contains_bars_strip [of s] by auto

lemma names_of_dicts: "names_of (map (\<lambda>name. [(''name'', name)]) ns) = ns"
  by (induction ns) (simp_all add: names_of_def List.map_filter_simps)

text \<open>
  Claim C2. For a value whose text holds the delimiter \<^verbatim>\<open>||\<close>,
  \<^verbatim>\<open>parse_delimited_field\<close> returns exactly the segments of the raw text: split at
  the delimiter, each trimmed, the empty ones dropped, in order (each as the
  \<^verbatim>\<open>name\<close> of an entry). For a value without the delimiter that is not blank it
  returns the single trimmed value, and for a missing, empty or whitespace-only value the
  empty list. The split is a split at the delimiter: joining its segments with the
  delimiter gives the text back, and no segment holds the delimiter.
\<close>

theorem parse_delimited_field_segments:
  "(\<not> pd_isna v \<and> contains_bars (py_str v) \<longrightarrow>
      names_of (parse_delimited_field v) = trimmed_segments (py_str v)
      \<and> parse_delimited_field v = map (\<lambda>name. [(''name'', name)]) (trimmed_segments (py_str v)))
   \<and> (\<not> pd_isna v \<and> \<not> contains_bars (py_str v) \<and> strip (py_str v) \<noteq> [] \<longrightarrow>
      names_of (parse_delimited_field v) = [strip (py_str v)]
      \<and> parse_delimited_field v = [[(''name'', strip (py_str v))]])
   \<and> (pd_isna v \<or> v = PStr [] \<or> strip (py_str v) = [] \<longrightarrow> parse_delimited_field v = [])
   \<and> join_bars (split_bars (py_str v)) = py_str v
   \<and> (\<forall>seg \<in> set (split_bars (py_str v)). \<not> contains_bars seg)"
proof -
  have empty: "v = PStr [] \<Longrightarrow> strip (py_str v) = []" by (simp add: strip_def)
  have a: "parse_delimited_field v = map (\<lambda>name. [(''name'', name)]) (trimmed_segments (py_str v))"
    if "\<not> pd_isna v" "contains_bars (py_str v)"
  proof -
    from that(2) have nb: "strip (py_str v) \<noteq> []" "v \<noteq> PStr []"
      using contains_bars_not_blank [of "py_str v"] by auto
    have "filter (\<lambda>value. value \<noteq> [])
            (map strip (filter (\<lambda>s. strip s \<noteq> []) (split_bars (strip (py_str v)))))
          = filter (\<lambda>seg. seg \<noteq> []) (map strip (split_bars (strip (py_str v))))"
      by (simp add: filter_map comp_def)
    also have "\<dots> = trimmed_segments (py_str v)"
      by (simp add: trimmed_segments_def strip_split_strip)
    finally show ?thesis
      using that nb by (simp add: parse_delimited_field_def contains_bars_strip)
  qed
  have b: "parse_delimited_field v = [[(''name'', strip (py_str v))]]"
    if "\<not> pd_isna v" "\<not> contains_bars (py_str v)" "strip (py_str v) \<noteq> []"
    using that empty by (auto simp: parse_delimited_field_def contains_bars_strip)
  have c: "parse_delimited_field v = []" if "pd_isna v \<or> v = PStr [] \<or> strip (py_str v) = []"
    using that by (auto simp: parse_delimited_field_def)
  from a b c show ?thesis
    by (auto simp: names_of_dicts join_bars_split split_bars_segments
          simp del: split_bars.simps)
       (simp_all add: names_of_def List.map_filter_simps)
qed

theorem parse_delimited_field_segments_witness:
  "names_of (parse_delimited_field (PStr ''PC||  ||Xbox '')) = [''PC'', ''Xbox'']
   \<and> trimmed_segments ''PC||  ||Xbox '' = [''PC'', ''Xbox'']
   \<and> parse_delimited_field (PStr '' Nintendo Switch '') = [[(''name'', ''Nintendo Switch'')]]
   \<and> parse_delimited_field (PStr ''   '') = []
   \<and> parse_delimited_field (PStr []) = []
   \<and> parse_delimited_field PNone = []
   \<and> join_bars (split_bars ''PC||  ||Xbox '') = ''PC||  ||Xbox ''"
proof -
  have t: "trimmed_segments ''PC||  ||Xbox '' = [''PC'', ''Xbox'']" by code_simp
  have c: "contains_bars ''PC||  ||Xbox ''" "\<not> contains_bars '' Nintendo Switch ''" by code_simp+
  have s: "strip '' Nintendo Switch '' = ''Nintendo Switch''" "strip ''   '' = []" by code_simp+
  have pre: "\<not> pd_isna (PStr ''PC||  ||Xbox '') \<and> contains_bars (py_str (PStr ''PC||  ||Xbox ''))"
    using c(1) by simp
  have "names_of (parse_delimited_field (PStr ''PC||  ||Xbox ''))
      = trimmed_segments (py_str (PStr ''PC||  ||Xbox ''))"
    by (rule parse_delimited_field_segments [of "PStr ''PC||  ||Xbox ''", THEN conjunct1,
          rule_format, OF pre, THEN conjunct1])
  then have 1: "names_of (parse_delimited_field (PStr ''PC||  ||Xbox '')) = [''PC'', ''Xbox'']"
    using t by simp
  have j: "join_bars (split_bars ''PC||  ||Xbox '') = ''PC||  ||Xbox ''"
    using parse_delimited_field_segments [of "PStr ''PC||  ||Xbox ''"]
    by (simp del: split_bars.simps contains_bars.simps)
  have 2: "parse_delimited_field (PStr '' Nintendo Switch '') = [[(''name'', ''Nintendo Switch'')]]"
    using parse_delimited_field_segments [of "PStr '' Nintendo Switch ''"] c(2) s(1)
    by (simp del: split_bars.simps contains_bars.simps)
  have 3: "parse_delimited_field (PStr ''   '') = []"
    using parse_delimited_field_segments [of "PStr ''   ''"] s(2)
    by (simp del: split_bars.simps contains_bars.simps)
  have 4: "parse_delimited_field (PStr []) = []"
    using parse_delimited_field_segments [of "PStr []"]
    by (simp del: split_bars.simps contains_bars.simps)
  have 5: "parse_delimited_field PNone = []"
    using parse_delimited_field_segments [of PNone]
    by (simp del: split_bars.simps contains_bars.simps)
  from 1 j 2 3 4 5 t show ?thesis by (simp only: simp_thms)
qed

section \<open>Properties of the identifier cleaner\<close>

lemma underscore_runs_in_run:
  "underscore_runs True cs = underscore_runs False (dropWhile is_space cs)"
  by (induction cs) auto

lemma re_sub_spaces_runs: "re_sub_spaces s = underscore_runs False s"
  by (induction s rule: re_sub_spaces.induct) (auto simp: underscore_runs_in_run)

lemma re_sub_other_filter: "re_sub_other s = filter kept_with_hyphen s"
  by (auto simp: re_sub_other_def kept_with_hyphen_def is_word_def intro: filter_cong)

lemma underscore_runs_no_space: "c \<in> set (underscore_runs b s) \<Longrightarrow> \<not> is_space c"
  by (induction s arbitrary: b) (auto simp: is_space_def split: if_splits)

lemma utf8_encode_bytes: "b \<in> set (utf8_encode x) \<Longrightarrow> b < 256"
proof -
  assume b: "b \<in> set (utf8_encode x)"
  define n where "n = (of_char x :: nat)"
  have "n < 256" by (simp add: n_def)
  then have "n div 64 < 4" "n mod 64 < 64" by auto
  with b show "b < 256"
    by (auto simp: utf8_encode_def Let_def n_def [symmetric] split: if_splits)
qed

lemma hex_digit_no_space: "d < 16 \<Longrightarrow> \<not> is_space (hex_digit d)"
  by (auto simp: hex_digit_def is_space_def Let_def)

lemma quote_byte_no_space: "b < 256 \<Longrightarrow> c \<in> set (quote_byte b) \<Longrightarrow> \<not> is_space c"
proof -
  assume b: "b < 256" and c: "c \<in> set (quote_byte b)"
  show "\<not> is_space c"
  proof (cases "always_safe b")
    case True
    with c have "c = char_of b" by (simp add: quote_byte_def)
    with b True show ?thesis by (auto simp: is_space_def always_safe_def Let_def)
  next
    case False
    with c have "c = CHR ''%'' \<or> c = hex_digit (b div 16) \<or> c = hex_digit (b mod 16)"
      by (simp add: quote_byte_def)
    moreover from b have "b div 16 < 16" "b mod 16 < 16" by auto
    ultimately show ?thesis
      using hex_digit_no_space by (auto simp: is_space_def)
  qed
qed

lemma quote_no_space: "c \<in> set (quote s) \<Longrightarrow> \<not> is_space c"
  by (auto simp: quote_def dest: utf8_encode_bytes quote_byte_no_space)

text \<open>
  Claim C3, as amended. For a value that is neither missing nor the empty string,
  \<^verbatim>\<open>clean_uri_string\<close> strips every character that is not a letter, a digit, an
  underscore, whitespace or a hyphen, replaces each run of whitespace of the stripped and
  trimmed text by a single underscore, and percent-encodes the result; for a missing or
  empty value it returns \<^verbatim>\<open>None\<close>. No whitespace is left in a result.
\<close>

theorem clean_uri_string_keeps_hyphen:
  "clean_uri_string text = cleanForUri kept_with_hyphen text
   \<and> (pd_isna text \<or> text = PStr [] \<longrightarrow> clean_uri_string text = None)
   \<and> (\<forall>r. clean_uri_string text = Some r \<longrightarrow> (\<forall>c \<in> set r. \<not> is_space c))"
  by (auto simp: clean_uri_string_def cleanForUri_def re_sub_spaces_runs re_sub_other_filter
        dest: quote_no_space)

theorem clean_uri_string_keeps_hyphen_witness:
  "clean_uri_string (PStr ''Xbox  One - S/X! '') = Some ''Xbox_One_-_SX''
   \<and> cleanForUri kept_with_hyphen (PStr ''Xbox  One - S/X! '') = Some ''Xbox_One_-_SX''
   \<and> clean_uri_string (PStr []) = None \<and> clean_uri_string PNone = None"
proof -
  have e: "cleanForUri kept_with_hyphen (PStr ''Xbox  One - S/X! '') = Some ''Xbox_One_-_SX''"
    by code_simp
  have 1: "clean_uri_string (PStr ''Xbox  One - S/X! '') = Some ''Xbox_One_-_SX''"
    using clean_uri_string_keeps_hyphen [of "PStr ''Xbox  One - S/X! ''", THEN conjunct1] e
    by simp
  have 2: "clean_uri_string (PStr []) = None"
    using clean_uri_string_keeps_hyphen [of "PStr []", THEN conjunct2, THEN conjunct1] by simp
  have 3: "clean_uri_string PNone = None"
    using clean_uri_string_keeps_hyphen [of PNone, THEN conjunct2, THEN conjunct1] by simp
  from e 1 2 3 show ?thesis by (simp only: simp_thms)
qed

text \<open>
  The claim as stated fails: it strips the hyphen, which the program keeps.
\<close>

theorem clean_uri_string_counterexample:
  "clean_uri_string (PStr ''a-b'') = Some ''a-b''
   \<and> cleanForUri kept_as_claimed (PStr ''a-b'') = Some ''ab''"
  by code_simp

section \<open>Properties of the date formatter\<close>

lemma char_codes:
  "c = CHR ''0'' \<longleftrightarrow> (of_char c :: nat) = 48"
  "c = CHR ''1'' \<longleftrightarrow> (of_char c :: nat) = 49"
  "c = CHR ''2'' \<longleftrightarrow> (of_char c :: nat) = 50"
  "c = CHR ''3'' \<longleftrightarrow> (of_char c :: nat) = 51"
  "c = CHR ''-'' \<longleftrightarrow> (of_char c :: nat) = 45"
  "c = CHR '' '' \<longleftrightarrow> (of_char c :: nat) = 32"
  using of_char_eq_iff [of c "CHR ''0''", where ?'a = nat]
    of_char_eq_iff [of c "CHR ''1''", where ?'a = nat]
    of_char_eq_iff [of c "CHR ''2''", where ?'a = nat]
    of_char_eq_iff [of c "CHR ''3''", where ?'a = nat]
    of_char_eq_iff [of c "CHR ''-''", where ?'a = nat]
    of_char_eq_iff [of c "CHR '' ''", where ?'a = nat]
  by simp_all

lemma number_simps [simp]:
  "number [] = 0" "number [a] = digit_val a" "number [a, b] = 10 * digit_val a + digit_val b"
  "number [a, b, c, d] = 1000 * digit_val a + 100 * digit_val b + 10 * digit_val c + digit_val d"
  by (simp_all add: number_def)

lemma month_text_one: "month_text [a] \<longleftrightarrow> is_digit a \<and> a \<noteq> CHR ''0''"
  unfolding month_text_def is_digit_def digit_val_def char_codes Let_def
  by (simp add: digit_val_def) arith

lemma month_text_two:
  "month_text [a, b] \<longleftrightarrow>
     (a = CHR ''1'' \<and> (b = CHR ''0'' \<or> b = CHR ''1'' \<or> b = CHR ''2''))
     \<or> (a = CHR ''0'' \<and> is_digit b \<and> b \<noteq> CHR ''0'')"
  unfolding month_text_def is_digit_def digit_val_def char_codes Let_def
  by (simp add: digit_val_def) arith

lemma month_text_length: "month_text m \<Longrightarrow> length m = 1 \<or> length m = 2"
  by (auto simp: month_text_def)

lemma day_text_one: "day_text [a] \<longleftrightarrow> is_digit a \<and> a \<noteq> CHR ''0''"
  unfolding day_text_def is_digit_def digit_val_def char_codes Let_def
  by (simp add: digit_val_def) arith

lemma day_text_two:
  "day_text [a, b] \<longleftrightarrow>
     (a = CHR ''3'' \<and> (b = CHR ''0'' \<or> b = CHR ''1''))
     \<or> ((a = CHR ''1'' \<or> a = CHR ''2'') \<and> is_digit b)
     \<or> (a = CHR ''0'' \<and> is_digit b \<and> b \<noteq> CHR ''0'')
     \<or> (a = CHR '' '' \<and> is_digit b \<and> b \<noteq> CHR ''0'')"
  unfolding day_text_def is_digit_def digit_val_def char_codes Let_def
  by (simp add: digit_val_def) arith

lemma day_text_length: "day_text d \<Longrightarrow> length d = 1 \<or> length d = 2"
  by (auto simp: day_text_def)


lemma digit_literals [simp]:
  "digit_val CHR ''0'' = 0" "digit_val CHR ''1'' = 1" "digit_val CHR ''2'' = 2"
  "digit_val CHR ''3'' = 3" "is_digit CHR ''0''" "is_digit CHR ''1''" "is_digit CHR ''2''"
  "is_digit CHR ''3''" "\<not> is_digit CHR ''-''" "\<not> is_digit CHR '' ''"
  by (simp_all add: digit_val_def is_digit_def)

lemma match_year_eq:
  "match_year s =
     (if 4 \<le> length s \<and> list_all is_digit (take 4 s)
      then Some (number (take 4 s), drop 4 s) else None)"
  by (cases s rule: match_year.cases) auto

lemma match_hyphen_eq:
  "match_hyphen s = (if s \<noteq> [] \<and> s ! 0 = CHR ''-'' then Some (drop 1 s) else None)"
  by (cases s) auto



lemma match_day_two:
  "match_day [a, b] =
     (if a = CHR ''3'' \<and> (b = CHR ''0'' \<or> b = CHR ''1'') then [(30 + digit_val b, [])] else [])
     @ (if (a = CHR ''1'' \<or> a = CHR ''2'') \<and> is_digit b then [(10 * digit_val a + digit_val b, [])] else [])
     @ (if a = CHR ''0'' \<and> is_digit b \<and> b \<noteq> CHR ''0'' then [(digit_val b, [])] else [])
     @ (if is_digit a \<and> a \<noteq> CHR ''0'' then [(digit_val a, [b])] else [])
     @ (if a = CHR '' '' \<and> is_digit b \<and> b \<noteq> CHR ''0'' then [(digit_val b, [])] else [])"
  unfolding match_day_def day_alt1_def day_alt2_def day_alt3_def day_alt4_def day_alt5_def
  by (simp only: list.case)


lemma day_number_digits: "is_digit a \<Longrightarrow> is_digit b \<Longrightarrow> day_number [a, b] = 10 * digit_val a + digit_val b"
  by (simp add: day_number_def)

lemma day_number_space: "is_digit b \<Longrightarrow> day_number [CHR '' '', b] = digit_val b"
  by (simp add: day_number_def)

lemma day_two:
  "(case match_day [a, b] of [] \<Rightarrow> None | (dv, r) # others \<Rightarrow> if r = [] then Some dv else None)
     = (if day_text [a, b] then Some (day_number [a, b]) else None)"
proof -
  define A1 where "A1 \<longleftrightarrow> a = CHR ''3'' \<and> (b = CHR ''0'' \<or> b = CHR ''1'')"
  define A2 where "A2 \<longleftrightarrow> (a = CHR ''1'' \<or> a = CHR ''2'') \<and> is_digit b"
  define A3 where "A3 \<longleftrightarrow> a = CHR ''0'' \<and> is_digit b \<and> b \<noteq> CHR ''0''"
  define A4 where "A4 \<longleftrightarrow> is_digit a \<and> a \<noteq> CHR ''0''"
  define A5 where "A5 \<longleftrightarrow> a = CHR '' '' \<and> is_digit b \<and> b \<noteq> CHR ''0''"
  have md: "match_day [a, b] =
     (if A1 then [(30 + digit_val b, [])] else [])
     @ (if A2 then [(10 * digit_val a + digit_val b, [])] else [])
     @ (if A3 then [(digit_val b, [])] else [])
     @ (if A4 then [(digit_val a, [b])] else [])
     @ (if A5 then [(digit_val b, [])] else [])"
    unfolding A1_def A2_def A3_def A4_def A5_def by (rule match_day_two)
  have dt: "day_text [a, b] \<longleftrightarrow> A1 \<or> A2 \<or> A3 \<or> A5"
    unfolding A1_def A2_def A3_def A5_def by (rule day_text_two)
  have x: "A4 \<Longrightarrow> \<not> A5" unfolding A4_def A5_def by auto
  have v1: "A1 \<Longrightarrow> day_number [a, b] = 30 + digit_val b"
    unfolding A1_def by (auto simp: day_number_digits)
  have v2: "A2 \<Longrightarrow> day_number [a, b] = 10 * digit_val a + digit_val b"
    unfolding A2_def by (auto simp: day_number_digits)
  have v3: "A3 \<Longrightarrow> day_number [a, b] = digit_val b"
    unfolding A3_def by (auto simp: day_number_digits)
  have v5: "A5 \<Longrightarrow> day_number [a, b] = digit_val b"
    unfolding A5_def by (auto simp: day_number_space)
  show ?thesis
    unfolding md dt using x v1 v2 v3 v5
    by (cases A1; cases A2; cases A3; cases A4; cases A5; simp)
qed


lemma match_day_one:
  "match_day [a] = (if is_digit a \<and> a \<noteq> CHR ''0'' then [(digit_val a, [])] else [])"
  unfolding match_day_def day_alt1_def day_alt2_def day_alt3_def day_alt4_def day_alt5_def
  by (simp only: list.case append_Nil append_Nil2)

lemma match_day_long:
  "match_day (a # b # c # t) =
     (if a = CHR ''3'' \<and> (b = CHR ''0'' \<or> b = CHR ''1'') then [(30 + digit_val b, c # t)] else [])
     @ (if (a = CHR ''1'' \<or> a = CHR ''2'') \<and> is_digit b
        then [(10 * digit_val a + digit_val b, c # t)] else [])
     @ (if a = CHR ''0'' \<and> is_digit b \<and> b \<noteq> CHR ''0'' then [(digit_val b, c # t)] else [])
     @ (if is_digit a \<and> a \<noteq> CHR ''0'' then [(digit_val a, b # c # t)] else [])
     @ (if a = CHR '' '' \<and> is_digit b \<and> b \<noteq> CHR ''0'' then [(digit_val b, c # t)] else [])"
  unfolding match_day_def day_alt1_def day_alt2_def day_alt3_def day_alt4_def day_alt5_def
  by (simp only: list.case)

lemma day_long:
  "(case match_day (a # b # c # t) of [] \<Rightarrow> None
    | (dv, r) # others \<Rightarrow> if r = [] then Some dv else None) = None"
proof -
  define A1 where "A1 \<longleftrightarrow> a = CHR ''3'' \<and> (b = CHR ''0'' \<or> b = CHR ''1'')"
  define A2 where "A2 \<longleftrightarrow> (a = CHR ''1'' \<or> a = CHR ''2'') \<and> is_digit b"
  define A3 where "A3 \<longleftrightarrow> a = CHR ''0'' \<and> is_digit b \<and> b \<noteq> CHR ''0''"
  define A4 where "A4 \<longleftrightarrow> is_digit a \<and> a \<noteq> CHR ''0''"
  define A5 where "A5 \<longleftrightarrow> a = CHR '' '' \<and> is_digit b \<and> b \<noteq> CHR ''0''"
  have md: "match_day (a # b # c # t) =
     (if A1 then [(30 + digit_val b, c # t)] else [])
     @ (if A2 then [(10 * digit_val a + digit_val b, c # t)] else [])
     @ (if A3 then [(digit_val b, c # t)] else [])
     @ (if A4 then [(digit_val a, b # c # t)] else [])
     @ (if A5 then [(digit_val b, c # t)] else [])"
    unfolding A1_def A2_def A3_def A4_def A5_def by (rule match_day_long)
  show ?thesis
    unfolding md by (cases A1; cases A2; cases A3; cases A4; cases A5; simp)
qed

lemma match_day_first:
  "(case match_day d of [] \<Rightarrow> None | (dv, r) # others \<Rightarrow> if r = [] then Some dv else None)
     = (if day_text d then Some (day_number d) else None)"
proof (cases d)
  case Nil
  have "match_day [] = []"
    unfolding match_day_def day_alt1_def day_alt2_def day_alt3_def day_alt4_def day_alt5_def
    by (simp only: list.case append_Nil)
  moreover have "\<not> day_text []" by (auto dest: day_text_length)
  ultimately show ?thesis using Nil by simp
next
  case d1: (Cons a t1)
  show ?thesis
  proof (cases t1)
    case Nil
    have "is_digit a \<Longrightarrow> day_number [a] = digit_val a" by (simp add: day_number_def)
    with d1 Nil show ?thesis
      unfolding d1 Nil match_day_one day_text_one by simp
  next
    case d2: (Cons b t2)
    show ?thesis
    proof (cases t2)
      case Nil
      show ?thesis unfolding d1 d2 Nil by (rule day_two)
    next
      case (Cons c t3)
      have "\<not> day_text (a # b # c # t3)" by (auto dest: day_text_length)
      then show ?thesis unfolding d1 d2 Cons by (simp only: day_long if_False)
    qed
  qed
qed


lemma match_month_short:
  "match_month [] = []"
  "match_month [a] = (if is_digit a \<and> a \<noteq> CHR ''0'' then [(digit_val a, [])] else [])"
  unfolding match_month_def month_alt1_def month_alt2_def month_alt3_def
  by (simp_all only: list.case append_Nil append_Nil2)

lemma match_month_long:
  "match_month (a # b # t) =
     (if a = CHR ''1'' \<and> (b = CHR ''0'' \<or> b = CHR ''1'' \<or> b = CHR ''2'')
      then [(10 + digit_val b, t)] else [])
     @ (if a = CHR ''0'' \<and> is_digit b \<and> b \<noteq> CHR ''0'' then [(digit_val b, t)] else [])
     @ (if is_digit a \<and> a \<noteq> CHR ''0'' then [(digit_val a, b # t)] else [])"
  unfolding match_month_def month_alt1_def month_alt2_def month_alt3_def
  by (simp only: list.case)

lemma match_month_then_hyphen:
  "concat (map (\<lambda>(mo, s3). case match_hyphen s3 of None \<Rightarrow> [] | Some s4 \<Rightarrow> F mo s4)
             (match_month s2))
   = (if month_text (takeWhile (\<lambda>c. c \<noteq> CHR ''-'') s2)
         \<and> length (takeWhile (\<lambda>c. c \<noteq> CHR ''-'') s2) < length s2
      then F (number (takeWhile (\<lambda>c. c \<noteq> CHR ''-'') s2))
             (drop (Suc (length (takeWhile (\<lambda>c. c \<noteq> CHR ''-'') s2))) s2)
      else [])"
proof (cases s2)
  case Nil
  have "\<not> month_text []" by (auto dest: month_text_length)
  with Nil show ?thesis by (simp add: match_month_short)
next
  case s1: (Cons a t1)
  show ?thesis
  proof (cases t1)
    case Nil
    have "\<not> month_text []" by (auto dest: month_text_length)
    with s1 Nil show ?thesis by (simp add: match_month_short)
  next
    case s2: (Cons b t)
    define M1 where "M1 \<longleftrightarrow> a = CHR ''1'' \<and> (b = CHR ''0'' \<or> b = CHR ''1'' \<or> b = CHR ''2'')"
    define M2 where "M2 \<longleftrightarrow> a = CHR ''0'' \<and> is_digit b \<and> b \<noteq> CHR ''0''"
    define M3 where "M3 \<longleftrightarrow> is_digit a \<and> a \<noteq> CHR ''0''"
    define H where "H = (\<lambda>mo s3. case match_hyphen s3 of None \<Rightarrow> [] | Some s4 \<Rightarrow> F mo s4)"
    have mm: "match_month (a # b # t) =
       (if M1 then [(10 + digit_val b, t)] else [])
       @ (if M2 then [(digit_val b, t)] else [])
       @ (if M3 then [(digit_val a, b # t)] else [])"
      unfolding M1_def M2_def M3_def by (rule match_month_long)
    have lhs: "concat (map (\<lambda>(mo, s3). case match_hyphen s3 of None \<Rightarrow> [] | Some s4 \<Rightarrow> F mo s4)
             (match_month (a # b # t)))
        = (if M1 then H (10 + digit_val b) t else [])
          @ (if M2 then H (digit_val b) t else [])
          @ (if M3 then H (digit_val a) (b # t) else [])"
      unfolding mm H_def by (cases M1; cases M2; cases M3; simp)
    have m1: "M1 \<Longrightarrow> \<not> M2" "M1 \<Longrightarrow> a \<noteq> CHR ''-'' \<and> b \<noteq> CHR ''-''"
      "M1 \<Longrightarrow> 10 * digit_val a + digit_val b = 10 + digit_val b"
      unfolding M1_def M2_def by auto
    have m2: "M2 \<Longrightarrow> a \<noteq> CHR ''-'' \<and> b \<noteq> CHR ''-''"
      "M2 \<Longrightarrow> 10 * digit_val a + digit_val b = digit_val b"
      unfolding M2_def by auto
    have m3: "M3 \<Longrightarrow> a \<noteq> CHR ''-''" unfolding M3_def by auto
    have t2: "month_text [a, b] \<longleftrightarrow> M1 \<or> M2"
      unfolding M1_def M2_def by (rule month_text_two)
    have t1: "month_text [a] \<longleftrightarrow> M3"
      unfolding M3_def by (rule month_text_one)
    have t0: "\<not> month_text []" by (auto dest: month_text_length)
    show ?thesis
    proof (cases "a = CHR ''-''")
      case True
      with m1 m2 m3 have "\<not> M1" "\<not> M2" "\<not> M3" by auto
      with True t0 show ?thesis unfolding s1 s2 lhs by simp
    next
      case na: False
      show ?thesis
      proof (cases "b = CHR ''-''")
        case True
        with m1 m2 have "\<not> M1" "\<not> M2" by auto
        with na True t1 show ?thesis unfolding s1 s2 lhs H_def by (simp add: match_hyphen_eq)
      next
        case nb: False
        have h3: "H (digit_val a) (b # t) = []" using nb by (simp add: H_def)
        show ?thesis
        proof (cases t)
          case Nil
          with na nb show ?thesis unfolding s1 s2 lhs H_def by simp
        next
          case (Cons c t')
          show ?thesis
          proof (cases "c = CHR ''-''")
            case True
            have "H mo t = F mo t'" for mo using Cons True by (simp add: H_def)
            with na nb Cons True t2 m1 m2 show ?thesis
              unfolding s1 s2 lhs h3 by (cases M1; cases M2; simp)
          next
            case False
            have "H mo t = []" for mo using Cons False by (simp add: H_def)
            moreover have "\<not> month_text (a # b # c # takeWhile (\<lambda>c. c \<noteq> CHR ''-'') t')"
              by (auto dest: month_text_length)
            ultimately show ?thesis
              using na nb Cons False unfolding s1 s2 lhs h3 by simp
          qed
        qed
      qed
    qed
  qed
qed


lemma strptime_ymd_accepts: "(\<exists>parsed. strptime_ymd s = Inr parsed) \<longleftrightarrow> lenient_ymd s"
proof -
  define rest where "rest = drop 5 s"
  define m where "m = takeWhile (\<lambda>c. c \<noteq> CHR ''-'') rest"
  define d where "d = drop (Suc (length m)) rest"
  define y where "y = number (take 4 s)"
  define front where "front \<longleftrightarrow> 4 < length s \<and> s ! 4 = CHR ''-'' \<and> length m < length rest
      \<and> list_all is_digit (take 4 s) \<and> month_text m"
  have len: "lenient_ymd s \<longleftrightarrow> front \<and> day_text d \<and> valid_date y (number m) (day_number d)"
    unfolding lenient_ymd_def Let_def front_def rest_def m_def d_def y_def by auto
  have hy: "match_hyphen (drop 4 s) = (if 4 < length s \<and> s ! 4 = CHR ''-'' then Some rest else None)"
    unfolding match_hyphen_eq rest_def by (auto simp: nth_drop)
  have ymd: "match_ymd s =
      (if front
       then (case map (\<lambda>(dv, s5). (y, number m, dv, s5)) (match_day d) of
               [] \<Rightarrow> None | found # others \<Rightarrow> Some found)
       else None)"
    unfolding match_ymd_def match_year_eq
    by (auto simp: hy match_month_then_hyphen front_def m_def [symmetric] d_def [symmetric]
          y_def [symmetric])
  show ?thesis
  proof (cases front)
    case False
    then show ?thesis unfolding len strptime_ymd_def ymd by simp
  next
    case True
    show ?thesis
    proof (cases "match_day d")
      case Nil
      with match_day_first [of d] have "\<not> day_text d" by (simp split: if_splits)
      with True Nil show ?thesis unfolding len strptime_ymd_def ymd by simp
    next
      case (Cons first others)
      obtain dv r where f: "first = (dv, r)" by (cases first)
      from match_day_first [of d] Cons f
      have md: "(if r = [] then Some dv else None) = (if day_text d then Some (day_number d) else None)"
        by simp
      show ?thesis
      proof (cases "r = []")
        case True
        with md have "day_text d" "day_number d = dv" by (auto split: if_splits)
        with \<open>front\<close> Cons f True show ?thesis unfolding len strptime_ymd_def ymd by simp
      next
        case False
        with md have "\<not> day_text d" by (auto split: if_splits)
        with \<open>front\<close> Cons f False show ?thesis unfolding len strptime_ymd_def ymd by simp
      qed
    qed
  qed
qed

lemma strict_is_lenient: "strict_ymd s \<Longrightarrow> lenient_ymd s"
proof -
  assume st: "strict_ymd s"
  then have l: "length s = 10" by (simp add: strict_ymd_def)
  then obtain y1 y2 y3 y4 h1 m1 m2 h2 d1 d2 where s: "s = [y1, y2, y3, y4, h1, m1, m2, h2, d1, d2]"
    by (auto simp: length_Suc_conv numeral_eq_Suc)
  from st have h: "h1 = CHR ''-''" "h2 = CHR ''-''" "is_digit m1" "is_digit m2"
      "is_digit d1" "is_digit d2"
      "list_all is_digit [y1, y2, y3, y4]"
      "valid_date (number [y1, y2, y3, y4]) (number [m1, m2]) (number [d1, d2])"
    unfolding s strict_ymd_def by simp_all
  from h(3,4) have tw: "takeWhile (\<lambda>c. c \<noteq> CHR ''-'') [m1, m2, CHR ''-'', d1, d2] = [m1, m2]"
    by auto
  from h(8) have r: "1 \<le> number [m1, m2]" "number [m1, m2] \<le> 12" "1 \<le> number [d1, d2]"
    "number [d1, d2] \<le> 31"
    by (auto simp: valid_date_def days_in_month_def split: if_splits)
  from h r have "month_text [m1, m2]" "day_text [d1, d2]" "day_number [d1, d2] = number [d1, d2]"
    by (simp_all add: month_text_def day_text_def day_number_def del: number_simps)
  with h tw show ?thesis
    unfolding s lenient_ymd_def Let_def by (simp del: number_simps)
qed


text \<open>
  What \<^verbatim>\<open>format_date\<close> returns for a value whose text is in the model's alphabet:
  \<^verbatim>\<open>None\<close> for a missing or empty value, and otherwise the text unchanged exactly when
  it has the form that \<^verbatim>\<open>strptime\<close> accepts. A date in strict \<^verbatim>\<open>YYYY-MM-DD\<close> form
  has that form.
\<close>

lemma format_date_accepted:
  "(pd_isna v \<or> v = PStr [] \<longrightarrow> format_date v = None)
   \<and> (\<not> pd_isna v \<and> v \<noteq> PStr [] \<longrightarrow>
        format_date v = (if lenient_ymd (py_str v) then Some (py_str v) else None))
   \<and> (\<not> pd_isna v \<and> strict_ymd (py_str v) \<longrightarrow> format_date v = Some (py_str v))
   \<and> format_date (PStr ''2020-03-15'') = Some ''2020-03-15''
   \<and> format_date (PStr ''15/03/2020'') = None"
proof -
  have a: "format_date v = (if lenient_ymd (py_str v) then Some (py_str v) else None)"
    if "\<not> pd_isna v" "v \<noteq> PStr []" for v
    using that strptime_ymd_accepts [of "py_str v"]
    by (cases "strptime_ymd (py_str v)") (auto simp: format_date_def)
  have "v \<noteq> PStr []" if "strict_ymd (py_str v)"
    using that by (auto simp: strict_ymd_def)
  then have b: "format_date v = Some (py_str v)" if "\<not> pd_isna v" "strict_ymd (py_str v)"
    using that a [of v] strict_is_lenient [of "py_str v"] by simp
  have c: "format_date (PStr ''2020-03-15'') = Some ''2020-03-15''"
    "format_date (PStr ''15/03/2020'') = None"
    by code_simp+
  from a [of v] b c show ?thesis by (simp add: format_date_def)
qed

text \<open>
  Claim C6 at the text \<^verbatim>\<open>2020-3-5\<close>. The claim says that a date is returned when it
  is in strict \<^verbatim>\<open>YYYY-MM-DD\<close> form and that nothing is returned otherwise;
  \<^verbatim>\<open>strptime\<close> also takes a month and a day of one digit, so this text, which is not
  in that form, is returned unchanged and is emitted as an \<^verbatim>\<open>xsd:date\<close>.
\<close>

theorem format_date_one_digit_month:
  "\<not> strict_ymd ''2020-3-5''
   \<and> formatDate (PStr ''2020-3-5'') = None
   \<and> format_date (PStr ''2020-3-5'') = Some ''2020-3-5''
   \<and> date_step [''released'' \<mapsto> PStr ''2020-3-5''] =
       Inr [Assertion ''schema:datePublished'' (quoted ''2020-3-5'' ''^^xsd:date'')]"
  by code_simp

section \<open>Declarations before references\<close>
























text \<open>A reference ends with the subject with which the declaration begins.\<close>

lemma render_subject:
  "prefix (subject_prefix cat @ cleaned) (render (EntityDecl cat cleaned literal))"
  "suffix (subject_prefix cat @ cleaned) (render (EntityRef cat cleaned))"
  by (simp_all add: suffix_def)




end
